theory Spec2Isabelle
  imports Complex_Main "HOL-Library.AList" "HOL-Library.Word"
begin

unbundle bit_operations_syntax

section \<open>Data model\<close>

text \<open>
  Python values of type \<open>Dict[str, Any]\<close> that travel through the cache, the
  orchestrator and the job records are JSON documents. A Python \<open>str\<close> is modelled by
  \<open>string\<close>, one \<open>char\<close> per code point (code points below 256). A \<open>dict\<close> is an
  association list in insertion order; \<open>map_of\<close> is the lookup. A finite \<open>float\<close> is
  the rational number it stands for; \<open>nan\<close>, \<open>inf\<close> and \<open>-inf\<close> are values of their own.
  Timestamps returned by \<open>time.time()\<close> are real numbers; every operation that reads the
  clock takes the value it reads as an argument.
\<close>

datatype nonfinite = NaN | PosInfinity | NegInfinity

datatype json =
    JNull
  | JBool bool
  | JInt int
  | JFloat rat
  | JNonFinite nonfinite
  | JStr string
  | JArr "json list"
  | JObj "(string \<times> json) list"

text \<open>Python truthiness of a decoded JSON value (\<open>if cached:\<close>, \<open>if raw_links:\<close>).\<close>

fun py_truthy :: "json \<Rightarrow> bool" where
  "py_truthy JNull = False"
| "py_truthy (JBool b) = b"
| "py_truthy (JInt i) = (i \<noteq> 0)"
| "py_truthy (JFloat q) = (q \<noteq> 0)"
| "py_truthy (JNonFinite x) = True"
| "py_truthy (JStr s) = (s \<noteq> [])"
| "py_truthy (JArr xs) = (xs \<noteq> [])"
| "py_truthy (JObj kvs) = (kvs \<noteq> [])"

text \<open>
  An exception, by \<open>str(e)\<close> and by the \<open>except\<close> clause that catches it: an instance
  of \<open>ValueError\<close> (such as \<open>json.JSONDecodeError\<close> or a pydantic \<open>ValidationError\<close>),
  an instance of \<open>RuntimeError\<close> (such as \<open>RecursionError\<close>), or any other \<open>Exception\<close>.
\<close>

datatype py_exn = ValueError string | RuntimeError string | OtherException string

fun exn_str :: "py_exn \<Rightarrow> string" where
  "exn_str (ValueError m) = m"
| "exn_str (RuntimeError m) = m"
| "exn_str (OtherException m) = m"

datatype job_state = Queued | Processing | Completed | Failed

text \<open>\<open>models.JobStatus\<close>.\<close>

record JobStatus =
  job_id :: string
  status :: job_state
  progress :: int
  result :: "json option"
  error :: "string option"
  created_at :: real

text \<open>\<open>d.get(key)\<close> on a decoded value that is a dictionary.\<close>

definition json_get :: "json \<Rightarrow> string \<Rightarrow> json option" where
  "json_get v k = (case v of JObj kvs \<Rightarrow> map_of kvs k | _ \<Rightarrow> None)"

section \<open>The json module\<close>

text \<open>
  A decoder and an encoder in the manner of \<open>json.loads\<close> and \<open>json.dumps\<close>, used to run
  the model on concrete texts; the general theorems take the decoder as a parameter.
  The decoder follows \<open>json.decoder\<close>: whitespace is space, tab, newline and carriage
  return; strings are scanned in strict mode; the pairs of an object go through
  \<open>dict(pairs)\<close>. A call of \<open>json.loads\<close> has three outcomes: a value, a
  \<open>JSONDecodeError\<close>, or another exception. The decoder raises the other exceptions of
  CPython: a \<open>ValueError\<close> for an integer literal of more than 4300 digits
  (\<open>sys.get_int_max_str_digits()\<close>) and a \<open>RecursionError\<close> when arrays and objects are
  nested deeper than the recursion limit (1000 by default; the depth left for the decoder
  depends on the interpreter and on the frames in use).
  Idealisations: a number with a fraction or an exponent is decoded to its exact rational
  value (no rounding, no overflow to \<open>inf\<close>); \<open>\u\<close> escapes of code points above 255 have
  no value in \<^typ>\<open>string\<close>, and the decoder answers them like a text that does not
  decode. The fuel of the mutually recursive functions is twice the length of the text
  plus two: between two calls of \<open>parse_value\<close> on one path at least one character is
  consumed and at most one call of \<open>parse_members\<close> or \<open>parse_elements\<close> is made.
\<close>

datatype loads_result = Decoded json | JSONDecodeError | Raised py_exn

text \<open>What a \<open>try\<close> block with \<open>except Exception\<close> around \<open>json.loads\<close> keeps.\<close>

fun loads_option :: "loads_result \<Rightarrow> json option" where
  "loads_option (Decoded v) = Some v"
| "loads_option JSONDecodeError = None"
| "loads_option (Raised e) = None"

text \<open>The outcome of scanning a part of the text.\<close>

datatype 'a scan = Scanned 'a | NoMatch | ScanError py_exn

definition int_max_str_digits :: nat where
  "int_max_str_digits = 4300"

definition recursion_limit :: nat where
  "recursion_limit = 1000"

definition is_json_ws :: "char \<Rightarrow> bool" where
  "is_json_ws c = (c = CHR '' '' \<or> c = CHR 0x09 \<or> c = CHR 0x0A \<or> c = CHR 0x0D)"

definition skip_ws :: "string \<Rightarrow> string" where
  "skip_ws s = dropWhile is_json_ws s"

definition is_digit :: "char \<Rightarrow> bool" where
  "is_digit c = (let n = (of_char c :: nat) in 48 \<le> n \<and> n \<le> 57)"

definition digits_value :: "string \<Rightarrow> nat" where
  "digits_value ds = foldl (\<lambda>a d. 10 * a + (of_char d - 48)) 0 ds"

definition hex_value :: "char \<Rightarrow> nat option" where
  "hex_value c = (let n = (of_char c :: nat) in
     if 48 \<le> n \<and> n \<le> 57 then Some (n - 48)
     else if 97 \<le> n \<and> n \<le> 102 then Some (n - 87)
     else if 65 \<le> n \<and> n \<le> 70 then Some (n - 55)
     else None)"

text \<open>The four hexadecimal digits after \<open>\u\<close>.\<close>

definition decode_u :: "string \<Rightarrow> char option" where
  "decode_u s =
     (case map hex_value (take 4 s) of
        [Some a, Some b, Some c, Some d] \<Rightarrow>
          (let n = ((a * 16 + b) * 16 + c) * 16 + d in if n < 256 then Some (char_of n) else None)
      | _ \<Rightarrow> None)"

definition backslash :: "char \<Rightarrow> char option" where
  "backslash e =
     (if e = CHR 0x22 then Some (CHR 0x22)
      else if e = CHR 0x5C then Some (CHR 0x5C)
      else if e = CHR ''/'' then Some (CHR ''/'')
      else if e = CHR ''b'' then Some (CHR 0x08)
      else if e = CHR ''f'' then Some (CHR 0x0C)
      else if e = CHR ''n'' then Some (CHR 0x0A)
      else if e = CHR ''r'' then Some (CHR 0x0D)
      else if e = CHR ''t'' then Some (CHR 0x09)
      else None)"

text \<open>
  \<open>scanstring\<close>, from the character after the opening quote: the decoded string and the
  text after the closing quote.
\<close>

fun scan_string :: "string \<Rightarrow> string \<Rightarrow> (string \<times> string) option" where
  "scan_string acc [] = None"
| "scan_string acc (c # cs) =
     (if c = CHR 0x22 then Some (rev acc, cs)
      else if c = CHR 0x5C then
        (case cs of
           [] \<Rightarrow> None
         | e # r \<Rightarrow>
            if e = CHR ''u'' then
              (case decode_u r of None \<Rightarrow> None | Some ch \<Rightarrow> scan_string (ch # acc) (drop 4 r))
            else
              (case backslash e of None \<Rightarrow> None | Some ch \<Rightarrow> scan_string (ch # acc) r))
      else if (of_char c :: nat) < 32 then None
      else scan_string (c # acc) cs)"

text \<open>
  \<open>NUMBER_RE\<close>: \<open>(-?(?:0|[1-9]\d*))(\.\d+)?([eE][-+]?\d+)?\<close>. Each part is returned with
  the text after it; a fraction or an exponent that is not well formed is not part of the
  number.
\<close>

definition scan_int_part :: "string \<Rightarrow> (string \<times> string) option" where
  "scan_int_part s =
     (case s of
        [] \<Rightarrow> None
      | c # r \<Rightarrow> if c = CHR ''0'' then Some ([c], r)
                 else if is_digit c then Some (takeWhile is_digit s, dropWhile is_digit s)
                 else None)"

definition scan_frac :: "string \<Rightarrow> (string \<times> string) option" where
  "scan_frac s =
     (case s of
        c # d # r \<Rightarrow> if c = CHR ''.'' \<and> is_digit d
                     then Some (takeWhile is_digit (d # r), dropWhile is_digit (d # r)) else None
      | _ \<Rightarrow> None)"

definition scan_exp :: "string \<Rightarrow> (int \<times> string) option" where
  "scan_exp s =
     (case s of
        [] \<Rightarrow> None
      | c # r \<Rightarrow>
         if c = CHR ''e'' \<or> c = CHR ''E'' then
           (let neg = (case r of [] \<Rightarrow> False | g # _ \<Rightarrow> g = CHR ''-'');
                r1 = (case r of [] \<Rightarrow> [] | g # t \<Rightarrow> if g = CHR ''-'' \<or> g = CHR ''+'' then t else r)
            in if takeWhile is_digit r1 = [] then None
               else Some ((if neg then - 1 else 1) * int (digits_value (takeWhile is_digit r1)),
                          dropWhile is_digit r1))
         else None)"

definition pow10 :: "int \<Rightarrow> rat" where
  "pow10 e = (if 0 \<le> e then 10 ^ nat e else 1 / 10 ^ nat (- e))"

text \<open>The decimal digits of a natural number.\<close>

fun nat_digits :: "nat \<Rightarrow> string" where
  "nat_digits n = (if n < 10 then [char_of (48 + n)]
                   else nat_digits (n div 10) @ [char_of (48 + n mod 10)])"

definition int_limit_error :: "nat \<Rightarrow> py_exn" where
  "int_limit_error n =
     ValueError (''Exceeds the limit (4300 digits) for integer string conversion: value has ''
       @ nat_digits n @ '' digits; use sys.set_int_max_str_digits() to increase the limit'')"

definition scan_number :: "string \<Rightarrow> (json \<times> string) scan" where
  "scan_number s =
     (let neg = (case s of [] \<Rightarrow> False | c # _ \<Rightarrow> c = CHR ''-'');
          s1 = (if neg then tl s else s)
      in case scan_int_part s1 of
           None \<Rightarrow> NoMatch
         | Some (ds, r1) \<Rightarrow>
            (let fr = scan_frac r1;
                 r2 = (case fr of None \<Rightarrow> r1 | Some (_, r) \<Rightarrow> r);
                 ex = scan_exp r2;
                 r3 = (case ex of None \<Rightarrow> r2 | Some (_, r) \<Rightarrow> r);
                 sgn = (if neg then - 1 else 1)
             in if fr = None \<and> ex = None then
                  (if int_max_str_digits < length ds then ScanError (int_limit_error (length ds))
                   else Scanned (JInt (sgn * int (digits_value ds)), r1))
                else
                  (let fv = (case fr of None \<Rightarrow> 0
                              | Some (fd, _) \<Rightarrow> of_nat (digits_value fd) / 10 ^ length fd);
                       e = (case ex of None \<Rightarrow> 0 | Some (k, _) \<Rightarrow> k)
                   in Scanned (JFloat (of_int sgn * (of_nat (digits_value ds) + fv) * pow10 e), r3))))"

text \<open>\<open>dict(pairs)\<close>: a repeated key keeps its first place and takes the last value.\<close>

definition py_dict :: "(string \<times> json) list \<Rightarrow> (string \<times> json) list" where
  "py_dict pairs = fold (\<lambda>(k, v). AList.update k v) pairs []"

definition recursion_error :: "string \<Rightarrow> py_exn" where
  "recursion_error what =
     RuntimeError (''maximum recursion depth exceeded while decoding a JSON '' @ what
       @ '' from a unicode string'')"

text \<open>
  \<open>scan_once\<close>, \<open>JSONObject\<close> (entered after the opening quote of a key) and
  \<open>JSONArray\<close> (entered at the first character of an element). The first argument is the
  fuel, the second the nesting depth that is left.
\<close>

fun parse_value :: "nat \<Rightarrow> nat \<Rightarrow> string \<Rightarrow> (json \<times> string) scan"
and parse_members ::
  "nat \<Rightarrow> nat \<Rightarrow> (string \<times> json) list \<Rightarrow> string \<Rightarrow> (json \<times> string) scan"
and parse_elements :: "nat \<Rightarrow> nat \<Rightarrow> json list \<Rightarrow> string \<Rightarrow> (json \<times> string) scan" where
  "parse_value 0 depth s = NoMatch"
| "parse_value (Suc n) depth s =
     (case s of
        [] \<Rightarrow> NoMatch
      | c # r \<Rightarrow>
         if c = CHR 0x22 then
           (case scan_string [] r of None \<Rightarrow> NoMatch | Some (str, rest) \<Rightarrow> Scanned (JStr str, rest))
         else if c = CHR ''{'' then
           (case depth of
              0 \<Rightarrow> ScanError (recursion_error ''object'')
            | Suc d \<Rightarrow>
               (case skip_ws r of
                  [] \<Rightarrow> NoMatch
                | q # r1 \<Rightarrow> if q = CHR ''}'' then Scanned (JObj [], r1)
                            else if q = CHR 0x22 then parse_members n d [] r1
                            else NoMatch))
         else if c = CHR ''['' then
           (case depth of
              0 \<Rightarrow> ScanError (recursion_error ''array'')
            | Suc d \<Rightarrow>
               (case skip_ws r of
                  [] \<Rightarrow> NoMatch
                | q # r1 \<Rightarrow> if q = CHR '']'' then Scanned (JArr [], r1)
                            else parse_elements n d [] (q # r1)))
         else if take 4 s = ''null'' then Scanned (JNull, drop 4 s)
         else if take 4 s = ''true'' then Scanned (JBool True, drop 4 s)
         else if take 5 s = ''false'' then Scanned (JBool False, drop 5 s)
         else if take 3 s = ''NaN'' then Scanned (JNonFinite NaN, drop 3 s)
         else if take 8 s = ''Infinity'' then Scanned (JNonFinite PosInfinity, drop 8 s)
         else if take 9 s = ''-Infinity'' then Scanned (JNonFinite NegInfinity, drop 9 s)
         else scan_number s)"
| "parse_members 0 depth acc s = NoMatch"
| "parse_members (Suc n) depth acc s =
     (case scan_string [] s of
        None \<Rightarrow> NoMatch
      | Some (key, r) \<Rightarrow>
         (case skip_ws r of
            [] \<Rightarrow> NoMatch
          | c # r1 \<Rightarrow>
             if c \<noteq> CHR '':'' then NoMatch
             else
               (case parse_value n depth (skip_ws r1) of
                  NoMatch \<Rightarrow> NoMatch
                | ScanError e \<Rightarrow> ScanError e
                | Scanned (v, r2) \<Rightarrow>
                   (case skip_ws r2 of
                      [] \<Rightarrow> NoMatch
                    | q # r3 \<Rightarrow>
                       if q = CHR ''}'' then Scanned (JObj (py_dict (acc @ [(key, v)])), r3)
                       else if q = CHR '','' then
                         (case skip_ws r3 of
                            [] \<Rightarrow> NoMatch
                          | g # r4 \<Rightarrow> if g = CHR 0x22
                                      then parse_members n depth (acc @ [(key, v)]) r4
                                      else NoMatch)
                       else NoMatch))))"
| "parse_elements 0 depth acc s = NoMatch"
| "parse_elements (Suc n) depth acc s =
     (case parse_value n depth s of
        NoMatch \<Rightarrow> NoMatch
      | ScanError e \<Rightarrow> ScanError e
      | Scanned (v, r) \<Rightarrow>
         (case skip_ws r of
            [] \<Rightarrow> NoMatch
          | q # r1 \<Rightarrow>
             if q = CHR '']'' then Scanned (JArr (acc @ [v]), r1)
             else if q = CHR '','' then parse_elements n depth (acc @ [v]) (skip_ws r1)
             else NoMatch))"

text \<open>
  \<open>json.loads\<close>: leading whitespace, one value, trailing whitespace, nothing else.
\<close>

definition json_loads :: "string \<Rightarrow> loads_result" where
  "json_loads s =
     (case parse_value (Suc (Suc (2 * length s))) recursion_limit (skip_ws s) of
        NoMatch \<Rightarrow> JSONDecodeError
      | ScanError e \<Rightarrow> Raised e
      | Scanned (v, rest) \<Rightarrow> if skip_ws rest = [] then Decoded v else JSONDecodeError)"

definition hex_digit :: "nat \<Rightarrow> char" where
  "hex_digit n = ''0123456789abcdef'' ! (n mod 16)"

text \<open>
  \<open>json.dumps\<close> with the default separators. With \<open>ensure_ascii\<close> every character outside
  space to tilde is escaped; without it only quote, backslash and the control characters
  below 32 are. A float is printed as \<open>repr\<close> prints a short decimal fraction (integer
  part, point, at least one and at most 17 fraction digits); exponent notation is not
  modelled.
\<close>

definition int_repr :: "int \<Rightarrow> string" where
  "int_repr i = (if i < 0 then ''-'' @ nat_digits (nat (- i)) else nat_digits (nat i))"

fun frac_digits :: "nat \<Rightarrow> rat \<Rightarrow> string" where
  "frac_digits 0 q = []"
| "frac_digits (Suc k) q =
     (let d = nat \<lfloor>q * 10\<rfloor>; r = q * 10 - of_nat d
      in char_of (48 + d) # (if r = 0 then [] else frac_digits k r))"

definition float_repr :: "rat \<Rightarrow> string" where
  "float_repr q =
     (let a = \<bar>q\<bar>; ip = nat \<lfloor>a\<rfloor>
      in (if q < 0 then ''-'' else []) @ nat_digits ip @ ''.'' @ frac_digits 17 (a - of_nat ip))"

definition escape_u :: "char \<Rightarrow> string" where
  "escape_u c = (let n = (of_char c :: nat) in
     [CHR 0x5C] @ ''u00'' @ [hex_digit (n div 16), hex_digit (n mod 16)])"

definition escape_char :: "bool \<Rightarrow> char \<Rightarrow> string" where
  "escape_char ensure_ascii c =
     (let n = (of_char c :: nat) in
      if c = CHR 0x22 then [CHR 0x5C, CHR 0x22]
      else if c = CHR 0x5C then [CHR 0x5C, CHR 0x5C]
      else if c = CHR 0x0A then [CHR 0x5C, CHR ''n'']
      else if c = CHR 0x0D then [CHR 0x5C, CHR ''r'']
      else if c = CHR 0x09 then [CHR 0x5C, CHR ''t'']
      else if c = CHR 0x08 then [CHR 0x5C, CHR ''b'']
      else if c = CHR 0x0C then [CHR 0x5C, CHR ''f'']
      else if n < 32 \<or> (ensure_ascii \<and> 126 < n) then escape_u c
      else [c])"

definition encode_string :: "bool \<Rightarrow> string \<Rightarrow> string" where
  "encode_string ensure_ascii s = [CHR 0x22] @ concat (map (escape_char ensure_ascii) s) @ [CHR 0x22]"

fun json_dumps :: "bool \<Rightarrow> json \<Rightarrow> string"
and dumps_items :: "bool \<Rightarrow> json list \<Rightarrow> string"
and dumps_pairs :: "bool \<Rightarrow> (string \<times> json) list \<Rightarrow> string" where
  "json_dumps ea JNull = ''null''"
| "json_dumps ea (JBool b) = (if b then ''true'' else ''false'')"
| "json_dumps ea (JInt i) = int_repr i"
| "json_dumps ea (JFloat q) = float_repr q"
| "json_dumps ea (JNonFinite NaN) = ''NaN''"
| "json_dumps ea (JNonFinite PosInfinity) = ''Infinity''"
| "json_dumps ea (JNonFinite NegInfinity) = ''-Infinity''"
| "json_dumps ea (JStr s) = encode_string ea s"
| "json_dumps ea (JArr xs) = ''['' @ dumps_items ea xs @ '']''"
| "json_dumps ea (JObj kvs) = ''{'' @ dumps_pairs ea kvs @ ''}''"
| "dumps_items ea [] = []"
| "dumps_items ea [x] = json_dumps ea x"
| "dumps_items ea (x # y # ys) = json_dumps ea x @ '', '' @ dumps_items ea (y # ys)"
| "dumps_pairs ea [] = []"
| "dumps_pairs ea [(k, v)] = encode_string ea k @ '': '' @ json_dumps ea v"
| "dumps_pairs ea ((k, v) # p # ps) =
     encode_string ea k @ '': '' @ json_dumps ea v @ '', '' @ dumps_pairs ea (p # ps)"

section \<open>services/job\_store.py\<close>

text \<open>
  \<open>JobStore\<close> keeps two dictionaries, \<open>_jobs\<close> and \<open>_created_at\<close>, and the
  time-to-live \<open>_ttl\<close>.
\<close>

record JobStore =
  js_ttl :: int
  js_jobs :: "(string \<times> JobStatus) list"
  js_created_at :: "(string \<times> real) list"

text \<open>\<open>self._ttl = ttl or settings.job_ttl_seconds\<close>: \<open>None\<close> and \<open>0\<close> are falsy.\<close>

definition JobStore_init :: "int option \<Rightarrow> int \<Rightarrow> JobStore" where
  "JobStore_init ttl job_ttl_seconds =
     \<lparr> js_ttl = (case ttl of None \<Rightarrow> job_ttl_seconds
                 | Some t \<Rightarrow> if t = 0 then job_ttl_seconds else t),
       js_jobs = [], js_created_at = [] \<rparr>"

text \<open>\<open>JobStore.get\<close>: a plain dictionary lookup; it does not read the clock.\<close>

definition JobStore_get :: "JobStore \<Rightarrow> string \<Rightarrow> JobStatus option" where
  "JobStore_get s jid = map_of (js_jobs s) jid"

text \<open>
  \<open>JobStore.cleanup\<close>: the ids whose creation time is below \<open>now - ttl\<close> are
  collected first, then popped from both dictionaries; the count is returned.
\<close>

definition expired_ids :: "real \<Rightarrow> JobStore \<Rightarrow> string list" where
  "expired_ids now s =
     map fst (filter (\<lambda>(jid, created). created < now - real_of_int (js_ttl s)) (js_created_at s))"

definition JobStore_cleanup :: "real \<Rightarrow> JobStore \<Rightarrow> nat \<times> JobStore" where
  "JobStore_cleanup now s =
     (let expired = expired_ids now s in
      (length expired,
       fold (\<lambda>jid st. st\<lparr> js_jobs := AList.delete jid (js_jobs st),
                           js_created_at := AList.delete jid (js_created_at st) \<rparr>)
            expired s))"

text \<open>
  \<open>JobStore.add\<close>: cleanup (first clock read), then both dictionaries are written
  (second clock read).
\<close>

definition JobStore_add :: "real \<Rightarrow> real \<Rightarrow> string \<Rightarrow> JobStatus \<Rightarrow> JobStore \<Rightarrow> JobStore" where
  "JobStore_add t_sweep t_add jid st s =
     (let s1 = snd (JobStore_cleanup t_sweep s) in
      s1\<lparr> js_jobs := AList.update jid st (js_jobs s1),
           js_created_at := AList.update jid t_add (js_created_at s1) \<rparr>)"

text \<open>\<open>JobStore.update\<close>: no insert for an unknown id.\<close>

definition JobStore_update :: "string \<Rightarrow> JobStatus \<Rightarrow> JobStore \<Rightarrow> bool \<times> JobStore" where
  "JobStore_update jid st s =
     (if map_of (js_jobs s) jid = None then (False, s)
      else (True, s\<lparr> js_jobs := AList.update jid st (js_jobs s) \<rparr>))"

definition JobStore_remove :: "string \<Rightarrow> JobStore \<Rightarrow> bool \<times> JobStore" where
  "JobStore_remove jid s =
     (if map_of (js_jobs s) jid = None then (False, s)
      else (True, s\<lparr> js_jobs := AList.delete jid (js_jobs s),
                      js_created_at := AList.delete jid (js_created_at s) \<rparr>))"

text \<open>\<open>JobStore.stats\<close>: cleanup, then the counts by status and the total.\<close>

record job_stats =
  n_queued :: nat
  n_processing :: nat
  n_completed :: nat
  n_failed :: nat
  n_total :: nat

definition count_status :: "job_state \<Rightarrow> (string \<times> JobStatus) list \<Rightarrow> nat" where
  "count_status q js = length (filter (\<lambda>(jid, j). status j = q) js)"

definition JobStore_stats :: "real \<Rightarrow> JobStore \<Rightarrow> job_stats \<times> JobStore" where
  "JobStore_stats now s =
     (let s1 = snd (JobStore_cleanup now s) in
      (\<lparr> n_queued = count_status Queued (js_jobs s1),
         n_processing = count_status Processing (js_jobs s1),
         n_completed = count_status Completed (js_jobs s1),
         n_failed = count_status Failed (js_jobs s1),
         n_total = length (js_jobs s1) \<rparr>, s1))"

definition JobStore_clear :: "JobStore \<Rightarrow> nat \<times> JobStore" where
  "JobStore_clear s = (length (js_jobs s), s\<lparr> js_jobs := [], js_created_at := [] \<rparr>)"

text \<open>A store holding one job added at time 0 with a TTL of one hour.\<close>

definition job0 :: JobStatus where
  "job0 = \<lparr> job_id = ''job-1'', status = Queued, progress = 0, result = None,
            error = None, created_at = 0 \<rparr>"

definition store0 :: JobStore where
  "store0 = JobStore_add 0 0 ''job-1'' job0 (JobStore_init None 3600)"

section \<open>services/rate\_limiter.py\<close>

text \<open>
  \<open>RateLimitManager\<close>: one \<open>deque\<close> of timestamps per provider (\<open>maxlen\<close> 500 for Groq,
  100 for Gemini), the two configured limits and the window width of 60 seconds.
\<close>

record RateLimitManager =
  groq_history :: "real list"
  gemini_history :: "real list"
  groq_limit_rpm :: int
  gemini_limit_rpm :: int
  window_seconds :: real

definition groq_maxlen :: nat where "groq_maxlen = 500"

definition gemini_maxlen :: nat where "gemini_maxlen = 100"

definition RateLimitManager_init :: "int \<Rightarrow> int \<Rightarrow> RateLimitManager" where
  "RateLimitManager_init groq_rpm_limit gemini_rpm_limit =
     \<lparr> groq_history = [], gemini_history = [],
       groq_limit_rpm = groq_rpm_limit, gemini_limit_rpm = gemini_rpm_limit,
       window_seconds = 60 \<rparr>"

text \<open>
  \<open>deque.append\<close> on a bounded deque: when the deque is full the oldest entry (the left
  end) is discarded, so the deque holds the last \<open>maxlen\<close> entries.
\<close>

definition deque_append :: "nat \<Rightarrow> 'a \<Rightarrow> 'a list \<Rightarrow> 'a list" where
  "deque_append maxlen x h = drop (length (h @ [x]) - maxlen) (h @ [x])"

text \<open>
  \<open>_clean_history\<close>: \<open>while history and history[0] < cutoff: history.popleft()\<close>.
\<close>

definition clean_history :: "real \<Rightarrow> real \<Rightarrow> real list \<Rightarrow> real list" where
  "clean_history now window history = dropWhile (\<lambda>t. t < now - window) history"

definition can_use_groq :: "real \<Rightarrow> RateLimitManager \<Rightarrow> bool \<times> RateLimitManager" where
  "can_use_groq now r =
     (let h = clean_history now (window_seconds r) (groq_history r) in
      (int (length h) < groq_limit_rpm r, r\<lparr> groq_history := h \<rparr>))"

definition can_use_gemini :: "real \<Rightarrow> RateLimitManager \<Rightarrow> bool \<times> RateLimitManager" where
  "can_use_gemini now r =
     (let h = clean_history now (window_seconds r) (gemini_history r) in
      (int (length h) < gemini_limit_rpm r, r\<lparr> gemini_history := h \<rparr>))"

definition record_groq_usage :: "real \<Rightarrow> RateLimitManager \<Rightarrow> RateLimitManager" where
  "record_groq_usage now r = r\<lparr> groq_history := deque_append groq_maxlen now (groq_history r) \<rparr>"

definition record_gemini_usage :: "real \<Rightarrow> RateLimitManager \<Rightarrow> RateLimitManager" where
  "record_gemini_usage now r =
     r\<lparr> gemini_history := deque_append gemini_maxlen now (gemini_history r) \<rparr>"

record rate_stats =
  groq_used :: int
  groq_limit :: int
  groq_available :: int
  gemini_used :: int
  gemini_limit :: int
  gemini_available :: int

text \<open>\<open>get_stats\<close> cleans both histories; each cleaning reads the clock.\<close>

definition get_stats :: "real \<Rightarrow> real \<Rightarrow> RateLimitManager \<Rightarrow> rate_stats \<times> RateLimitManager" where
  "get_stats t_groq t_gemini r =
     (let hg = clean_history t_groq (window_seconds r) (groq_history r);
          hm = clean_history t_gemini (window_seconds r) (gemini_history r)
      in (\<lparr> groq_used = int (length hg), groq_limit = groq_limit_rpm r,
             groq_available = groq_limit_rpm r - int (length hg),
             gemini_used = int (length hm), gemini_limit = gemini_limit_rpm r,
             gemini_available = gemini_limit_rpm r - int (length hm) \<rparr>,
          r\<lparr> groq_history := hg, gemini_history := hm \<rparr>))"

text \<open>
  A sequence of calls on one limiter. Each call carries the clock values it reads, in the
  order in which it reads them.
\<close>

datatype rl_op =
    CanUseGroq real
  | CanUseGemini real
  | RecordGroq real
  | RecordGemini real
  | GetStats real real

fun exec_op :: "rl_op \<Rightarrow> RateLimitManager \<Rightarrow> RateLimitManager" where
  "exec_op (CanUseGroq now) r = snd (can_use_groq now r)"
| "exec_op (CanUseGemini now) r = snd (can_use_gemini now r)"
| "exec_op (RecordGroq now) r = record_groq_usage now r"
| "exec_op (RecordGemini now) r = record_gemini_usage now r"
| "exec_op (GetStats t1 t2) r = snd (get_stats t1 t2 r)"

fun op_times :: "rl_op \<Rightarrow> real list" where
  "op_times (CanUseGroq now) = [now]"
| "op_times (CanUseGemini now) = [now]"
| "op_times (RecordGroq now) = [now]"
| "op_times (RecordGemini now) = [now]"
| "op_times (GetStats t1 t2) = [t1, t2]"

definition clock_reads :: "rl_op list \<Rightarrow> real list" where
  "clock_reads ops = concat (map op_times ops)"

text \<open>Every stored timestamp lies in the window that ends at \<open>now\<close>.\<close>

definition within_window :: "real \<Rightarrow> real \<Rightarrow> real list \<Rightarrow> bool" where
  "within_window now window h = list_all (\<lambda>t. now - window \<le> t \<and> t \<le> now) h"

text \<open>
  Both histories are in non-decreasing order and hold no timestamp later than \<open>T\<close>.
\<close>

definition ordered_upto :: "real \<Rightarrow> RateLimitManager \<Rightarrow> bool" where
  "ordered_upto T r \<longleftrightarrow> sorted (groq_history r) \<and> sorted (gemini_history r) \<and>
     (\<forall>t\<in>set (groq_history r). t \<le> T) \<and> (\<forall>t\<in>set (gemini_history r). t \<le> T)"

text \<open>The two providers, to state a property once for both.\<close>

datatype provider = Groq | Gemini

fun history_of :: "provider \<Rightarrow> RateLimitManager \<Rightarrow> real list" where
  "history_of Groq r = groq_history r"
| "history_of Gemini r = gemini_history r"

fun limit_of :: "provider \<Rightarrow> RateLimitManager \<Rightarrow> int" where
  "limit_of Groq r = groq_limit_rpm r"
| "limit_of Gemini r = gemini_limit_rpm r"

fun maxlen_of :: "provider \<Rightarrow> nat" where
  "maxlen_of Groq = groq_maxlen"
| "maxlen_of Gemini = gemini_maxlen"

fun can_use :: "provider \<Rightarrow> real \<Rightarrow> RateLimitManager \<Rightarrow> bool \<times> RateLimitManager" where
  "can_use Groq now r = can_use_groq now r"
| "can_use Gemini now r = can_use_gemini now r"

fun record_usage :: "provider \<Rightarrow> real \<Rightarrow> RateLimitManager \<Rightarrow> RateLimitManager" where
  "record_usage Groq now r = record_groq_usage now r"
| "record_usage Gemini now r = record_gemini_usage now r"

section \<open>services/cache\_manager.py\<close>

text \<open>
  The library functions are parameters: \<open>sha\<close> is \<open>hashlib.sha256(b).hexdigest()\<close>,
  \<open>loads\<close> is \<open>json.loads\<close> (\<open>None\<close> when it raises: every call of it in this
  module sits in a \<open>try\<close> block with \<open>except Exception\<close>), \<open>dumps\<close> is
  \<open>json.dumps\<close> and \<open>dumps_raw\<close> is \<open>json.dumps(..., ensure_ascii=False)\<close>.
\<close>

record json_codec =
  loads :: "string \<Rightarrow> json option"
  dumps :: "json \<Rightarrow> string"
  dumps_raw :: "json \<Rightarrow> string"

text \<open>
  \<open>str.strip()\<close> removes the characters for which \<open>str.isspace\<close> holds; below code point
  256 these are 9 to 13, 28 to 32, 133 and 160. \<open>str.lower()\<close> maps A to Z and the
  upper-case letters of Latin-1 (192 to 222 without 215) to the letter 32 places later.
\<close>

definition py_isspace :: "char \<Rightarrow> bool" where
  "py_isspace c = (let n = (of_char c :: nat) in
     (9 \<le> n \<and> n \<le> 13) \<or> (28 \<le> n \<and> n \<le> 32) \<or> n = 133 \<or> n = 160)"

definition py_lower_char :: "char \<Rightarrow> char" where
  "py_lower_char c = (let n = (of_char c :: nat) in
     if (65 \<le> n \<and> n \<le> 90) \<or> (192 \<le> n \<and> n \<le> 222 \<and> n \<noteq> 215)
     then char_of (n + 32) else c)"

definition py_lstrip :: "(char \<Rightarrow> bool) \<Rightarrow> string \<Rightarrow> string" where
  "py_lstrip P s = dropWhile P s"

definition py_rstrip :: "(char \<Rightarrow> bool) \<Rightarrow> string \<Rightarrow> string" where
  "py_rstrip P s = rev (dropWhile P (rev s))"

definition py_strip :: "string \<Rightarrow> string" where
  "py_strip s = py_rstrip py_isspace (py_lstrip py_isspace s)"

definition py_lower :: "string \<Rightarrow> string" where
  "py_lower s = map py_lower_char s"

text \<open>A literal prefix, required or optional.\<close>

definition strip_prefix :: "string \<Rightarrow> string \<Rightarrow> string option" where
  "strip_prefix p s = (if take (length p) s = p then Some (drop (length p) s) else None)"

definition opt_prefix :: "string \<Rightarrow> string \<Rightarrow> string" where
  "opt_prefix p s = (case strip_prefix p s of Some r \<Rightarrow> r | None \<Rightarrow> s)"

text \<open>\<open>normalized = url.strip().lower().rstrip("/")\<close>\<close>

definition normalize_url :: "string \<Rightarrow> string" where
  "normalize_url u = py_rstrip (\<lambda>c. c = CHR ''/'') (py_lower (py_strip u))"

text \<open>\<open>str.encode()\<close>: UTF-8, two bytes for the code points from 128 to 255.\<close>

definition utf8_char :: "char \<Rightarrow> 8 word list" where
  "utf8_char c = (let n = (of_char c :: nat) in
     if n < 128 then [of_nat n] else [of_nat (192 + n div 64), of_nat (128 + n mod 64)])"

definition utf8_encode :: "string \<Rightarrow> 8 word list" where
  "utf8_encode s = concat (map utf8_char s)"

text \<open>\<open>_hash_url\<close>: the first 16 hexadecimal digits of the digest.\<close>

definition hash_url :: "(8 word list \<Rightarrow> string) \<Rightarrow> string \<Rightarrow> string" where
  "hash_url sha u = take 16 (sha (utf8_encode (normalize_url u)))"

text \<open>\<open>InMemoryCache\<close>: a dictionary from key to (timestamp, value), and the TTL.\<close>

record InMemoryCache =
  hot_data :: "(string \<times> real \<times> string) list"
  hot_ttl :: int

definition InMemoryCache_get :: "real \<Rightarrow> string \<Rightarrow> InMemoryCache \<Rightarrow> string option \<times> InMemoryCache" where
  "InMemoryCache_get now key c =
     (case map_of (hot_data c) key of
        None \<Rightarrow> (None, c)
      | Some (timestamp, v) \<Rightarrow>
          if now - timestamp < real_of_int (hot_ttl c) then (Some v, c)
          else (None, c\<lparr> hot_data := AList.delete key (hot_data c) \<rparr>))"

text \<open>\<open>setex\<close> stores the current time; its \<open>ttl\<close> argument is not used.\<close>

definition InMemoryCache_setex :: "real \<Rightarrow> string \<Rightarrow> int \<Rightarrow> string \<Rightarrow> InMemoryCache \<Rightarrow> InMemoryCache" where
  "InMemoryCache_setex now key ttl v c = c\<lparr> hot_data := AList.update key (now, v) (hot_data c) \<rparr>"

definition InMemoryCache_delete :: "string \<Rightarrow> InMemoryCache \<Rightarrow> InMemoryCache" where
  "InMemoryCache_delete key c = c\<lparr> hot_data := AList.delete key (hot_data c) \<rparr>"

text \<open>A row of the table \<open>analyses\<close>; the primary key \<open>url_hash\<close> is the key of the list.\<close>

record cold_row =
  row_url :: string
  row_analysis :: string
  row_created_at :: real
  row_updated_at :: real
  row_access_count :: int

record DualCacheManager =
  dc_ttl :: int
  dc_hot :: InMemoryCache
  dc_cold :: "(string \<times> cold_row) list"

definition DualCacheManager_init :: "int \<Rightarrow> DualCacheManager" where
  "DualCacheManager_init hot_cache_ttl =
     \<lparr> dc_ttl = hot_cache_ttl, dc_hot = \<lparr> hot_data = [], hot_ttl = hot_cache_ttl \<rparr>, dc_cold = [] \<rparr>"

text \<open>
  Every storage statement of \<open>get\<close> and \<open>save\<close> sits in a \<open>try\<close> block. For one call, the
  record says which of these statements raise; a statement that raises leaves its tier
  unchanged.
\<close>

record faults =
  hot_get_raises :: bool
  hot_setex_raises :: bool
  cold_select_raises :: bool
  cold_update_raises :: bool
  cold_upsert_raises :: bool

definition no_faults :: faults where
  "no_faults = \<lparr> hot_get_raises = False, hot_setex_raises = False, cold_select_raises = False,
                 cold_update_raises = False, cold_upsert_raises = False \<rparr>"

text \<open>
  The first \<open>try\<close> block of \<open>get\<close>: the hot value is returned when it is a non-empty string
  that decodes; an exception (of the read or of \<open>json.loads\<close>) is logged and the durable
  tier is tried.
\<close>

definition hot_phase ::
  "json_codec \<Rightarrow> faults \<Rightarrow> real \<Rightarrow> string \<Rightarrow> InMemoryCache \<Rightarrow> json option \<times> InMemoryCache" where
  "hot_phase codec f t_get key hot =
     (if hot_get_raises f then (None, hot)
      else (case InMemoryCache_get t_get key hot of
              (None, hot1) \<Rightarrow> (None, hot1)
            | (Some d, hot1) \<Rightarrow> (if d = [] then (None, hot1) else (loads codec d, hot1))))"

text \<open>
  The second \<open>try\<close> block of \<open>get\<close>: the row is selected and decoded; the write-back into
  the hot tier and the update of the access counter have a \<open>try\<close> block each.
\<close>

definition cold_phase ::
  "json_codec \<Rightarrow> faults \<Rightarrow> real \<Rightarrow> real \<Rightarrow> string \<Rightarrow> DualCacheManager
   \<Rightarrow> json option \<times> DualCacheManager" where
  "cold_phase codec f t_set t_db key c =
     (if cold_select_raises f then (None, c)
      else (case map_of (dc_cold c) key of
              None \<Rightarrow> (None, c)
            | Some row \<Rightarrow>
               (case loads codec (row_analysis row) of
                  None \<Rightarrow> (None, c)
                | Some analysis \<Rightarrow>
                   (let hot1 = (if hot_setex_raises f then dc_hot c
                                else InMemoryCache_setex t_set key (dc_ttl c)
                                       (dumps codec analysis) (dc_hot c));
                        cold1 = (if cold_update_raises f then dc_cold c
                                 else AList.update key
                                        (row\<lparr> row_access_count := row_access_count row + 1,
                                              row_updated_at := t_db \<rparr>) (dc_cold c))
                    in (Some analysis, c\<lparr> dc_hot := hot1, dc_cold := cold1 \<rparr>)))))"

definition DualCacheManager_get ::
  "(8 word list \<Rightarrow> string) \<Rightarrow> json_codec \<Rightarrow> faults \<Rightarrow> real \<Rightarrow> real \<Rightarrow> real \<Rightarrow> string
   \<Rightarrow> DualCacheManager \<Rightarrow> json option \<times> DualCacheManager" where
  "DualCacheManager_get sha codec f t_get t_set t_db u c =
     (let key = hash_url sha u in
      case hot_phase codec f t_get key (dc_hot c) of
        (Some v, hot1) \<Rightarrow> (Some v, c\<lparr> dc_hot := hot1 \<rparr>)
      | (None, hot1) \<Rightarrow> cold_phase codec f t_set t_db key (c\<lparr> dc_hot := hot1 \<rparr>))"

text \<open>
  \<open>save\<close>: the hot write, then the upsert (a new row starts with access count 1; on a
  conflict the analysis, the update time and the counter change, the URL does not).
\<close>

definition DualCacheManager_save ::
  "(8 word list \<Rightarrow> string) \<Rightarrow> json_codec \<Rightarrow> faults \<Rightarrow> real \<Rightarrow> real \<Rightarrow> string \<Rightarrow> json
   \<Rightarrow> DualCacheManager \<Rightarrow> DualCacheManager" where
  "DualCacheManager_save sha codec f t_set t_db u analysis c =
     (let key = hash_url sha u;
          serialized = dumps_raw codec analysis;
          hot1 = (if hot_setex_raises f then dc_hot c
                  else InMemoryCache_setex t_set key (dc_ttl c) serialized (dc_hot c));
          cold1 = (if cold_upsert_raises f then dc_cold c
                   else (case map_of (dc_cold c) key of
                           None \<Rightarrow> AList.update key
                             \<lparr> row_url = u, row_analysis = serialized, row_created_at = t_db,
                               row_updated_at = t_db, row_access_count = 1 \<rparr> (dc_cold c)
                         | Some row \<Rightarrow> AList.update key
                             (row\<lparr> row_analysis := serialized, row_updated_at := t_db,
                                   row_access_count := row_access_count row + 1 \<rparr>) (dc_cold c)))
      in c\<lparr> dc_hot := hot1, dc_cold := cold1 \<rparr>)"

definition DualCacheManager_invalidate ::
  "(8 word list \<Rightarrow> string) \<Rightarrow> string \<Rightarrow> DualCacheManager \<Rightarrow> DualCacheManager" where
  "DualCacheManager_invalidate sha u c =
     (let key = hash_url sha u in
      c\<lparr> dc_hot := InMemoryCache_delete key (dc_hot c), dc_cold := AList.delete key (dc_cold c) \<rparr>)"

text \<open>The codec of the running service.\<close>

definition py_json :: json_codec where
  "py_json = \<lparr> loads = (\<lambda>s. loads_option (json_loads s)), dumps = json_dumps True,
                dumps_raw = json_dumps False \<rparr>"

text \<open>
  For the closed examples: a stand-in for the digest (the bytes in hexadecimal; the theorems
  hold for every digest function), a URL, and the cache after one save at time 0 with a
  TTL of one day.
\<close>

definition demo_digest :: "8 word list \<Rightarrow> string" where
  "demo_digest bs = concat (map (\<lambda>b. [hex_digit (unat b div 16), hex_digit (unat b mod 16)]) bs)"

definition url1 :: string where
  "url1 = ''https://reddit.com/r/test/comments/abc123/x''"

definition analysis0 :: json where
  "analysis0 = JObj [(''consensus'', JStr ''ok'')]"

definition cache1 :: DualCacheManager where
  "cache1 = DualCacheManager_save demo_digest py_json no_faults 0 0 url1 analysis0
              (DualCacheManager_init 86400)"

definition row1 :: cold_row where
  "row1 = \<lparr> row_url = url1, row_analysis = json_dumps False analysis0, row_created_at = 0,
            row_updated_at = 0, row_access_count = 1 \<rparr>"

definition both_fail :: faults where
  "both_fail = no_faults\<lparr> hot_setex_raises := True, cold_update_raises := True \<rparr>"

definition upsert_fails :: faults where
  "upsert_fails = no_faults\<lparr> cold_upsert_raises := True \<rparr>"

section \<open>services/ai\_orchestrator.py\<close>

subsection \<open>The regular expressions of the recovery cascade\<close>

text \<open>
  \<open>re.search\<close> tries the start positions from left to right and returns the first match.
\<close>

fun search_first :: "(string \<Rightarrow> 'a option) \<Rightarrow> string \<Rightarrow> 'a option" where
  "search_first m [] = m []"
| "search_first m (c # cs) = (case m (c # cs) of Some x \<Rightarrow> Some x | None \<Rightarrow> search_first m cs)"

definition fence :: string where
  "fence = [CHR 0x60, CHR 0x60, CHR 0x60]"

text \<open>
  The pattern \<open>```(?:json)?\s*(\{.*?\})\s*```\<close> with \<open>DOTALL\<close>. After the opening
  fence, the optional word and the whitespace (\<open>\s\<close> is \<open>str.isspace\<close>), the group starts
  at a brace and is lazy: it ends at the first closing brace that is followed by optional
  whitespace and a fence. The accumulator holds the group read so far, reversed.
\<close>

fun lazy_group :: "string \<Rightarrow> string \<Rightarrow> string option" where
  "lazy_group acc [] = None"
| "lazy_group acc (c # cs) =
     (if c = CHR ''}'' \<and> strip_prefix fence (dropWhile py_isspace cs) \<noteq> None
      then Some (rev (c # acc))
      else lazy_group (c # acc) cs)"

definition code_block_at :: "string \<Rightarrow> string option" where
  "code_block_at s =
     (case strip_prefix fence s of
        None \<Rightarrow> None
      | Some r \<Rightarrow>
         (case dropWhile py_isspace (opt_prefix ''json'' r) of
            [] \<Rightarrow> None
          | c # r1 \<Rightarrow> if c = CHR ''{'' then lazy_group [c] r1 else None))"

definition code_block_match :: "string \<Rightarrow> string option" where
  "code_block_match text = search_first code_block_at text"

text \<open>
  The pattern \<open>\{[^{}]*(?:\{[^{}]*\}[^{}]*)*\}\<close>. After the opening brace the scan is
  either at the outer level or inside one inner pair of braces; an opening brace inside
  an inner pair, or the end of the text, makes the match at this start position fail.
\<close>

fun brace_scan :: "bool \<Rightarrow> string \<Rightarrow> string \<Rightarrow> string option" where
  "brace_scan inner acc [] = None"
| "brace_scan inner acc (c # cs) =
     (if c = CHR ''{'' then (if inner then None else brace_scan True (c # acc) cs)
      else if c = CHR ''}'' then (if inner then brace_scan False (c # acc) cs
                                 else Some (rev (c # acc)))
      else brace_scan inner (c # acc) cs)"

definition brace_at :: "string \<Rightarrow> string option" where
  "brace_at s = (case s of [] \<Rightarrow> None
                 | c # r \<Rightarrow> if c = CHR ''{'' then brace_scan False [c] r else None)"

definition brace_match :: "string \<Rightarrow> string option" where
  "brace_match text = search_first brace_at text"

text \<open>\<open>re.sub(r"[\x00-\x1F\x7F]", "", text).strip()\<close>\<close>

definition is_control :: "char \<Rightarrow> bool" where
  "is_control c = (let n = (of_char c :: nat) in n < 32 \<or> n = 127)"

definition cleaned_text :: "string \<Rightarrow> string" where
  "cleaned_text text = py_strip (filter (\<lambda>c. \<not> is_control c) text)"

text \<open>
  The pattern \<open>\{.*\}\<close> with \<open>DOTALL\<close>: from the first opening brace to the last closing
  brace after it.
\<close>

definition nested_match :: "string \<Rightarrow> string option" where
  "nested_match text =
     (let r = dropWhile (\<lambda>c. c \<noteq> CHR ''{'') text;
          m = py_rstrip (\<lambda>c. c \<noteq> CHR ''}'') r
      in if m = [] then None else Some m)"

text \<open>
  \<open>_fix_json_issues\<close>: \<open>re.sub(r",\s*([}\]])", r"\1", text)\<close>. A comma followed by
  optional whitespace and a closing bracket or brace is replaced by that bracket or brace;
  the scan goes on after the replaced text.
\<close>

function fix_json_issues :: "string \<Rightarrow> string" where
  "fix_json_issues [] = []"
| "fix_json_issues (c # cs) =
     (if c = CHR '','' then
        (case dropWhile py_isspace cs of
           [] \<Rightarrow> c # fix_json_issues cs
         | d # r \<Rightarrow> if d = CHR ''}'' \<or> d = CHR '']'' then d # fix_json_issues r
                    else c # fix_json_issues cs)
      else c # fix_json_issues cs)"
  by pat_completeness auto
termination
proof (relation "measure length")
  fix c :: char and cs d r
  assume "dropWhile py_isspace cs = d # r"
  then have "length (d # r) \<le> length cs"
    using length_dropWhile_le [of py_isspace cs] by simp
  then show "(r, c # cs) \<in> measure length" by simp
qed auto

subsection \<open>The recovery cascade\<close>

text \<open>\<open>_create_fallback_response\<close>\<close>

definition parse_error_note :: string where
  "parse_error_note = ''Error de parseo: no se pudo extraer JSON v'' @ [CHR 0xE1] @ ''lido''"

definition neutral_sentiment :: json where
  "neutral_sentiment =
     JObj [(''label'', JStr ''Neutro''), (''score'', JFloat (1 / 2)),
           (''details'', JStr parse_error_note)]"

definition create_fallback_response :: "string \<Rightarrow> json" where
  "create_fallback_response raw_text =
     JObj [(''summary_post'',
              JStr (if raw_text \<noteq> [] then take 400 raw_text
                    else ''Error al procesar respuesta del LLM'')),
           (''summary_comments'',
              JStr (if 400 < length raw_text then take 600 (drop 400 raw_text) else [])),
           (''sentiment_post'', neutral_sentiment),
           (''sentiment_comments'', neutral_sentiment),
           (''consensus'', JStr ''No disponible debido a error de procesamiento''),
           (''key_controversies'', JArr []),
           (''useful_links'', JArr [])]"

text \<open>
  \<open>_parse_json_response\<close>. Each \<open>json.loads\<close> sits in a \<open>try\<close> block that catches
  \<open>json.JSONDecodeError\<close> and nothing else: any other exception of the decoder leaves the
  function. A strategy whose pattern does not match is skipped, as one whose candidate does
  not decode. The decoder is a parameter.
\<close>

definition attempt :: "(string \<Rightarrow> loads_result) \<Rightarrow> string option \<Rightarrow> loads_result" where
  "attempt ld cand = (case cand of None \<Rightarrow> JSONDecodeError | Some s \<Rightarrow> ld s)"

fun or_else :: "loads_result \<Rightarrow> py_exn + json \<Rightarrow> py_exn + json" where
  "or_else (Decoded v) next = Inr v"
| "or_else JSONDecodeError next = next"
| "or_else (Raised e) next = Inl e"

definition parse_json_response :: "(string \<Rightarrow> loads_result) \<Rightarrow> string \<Rightarrow> py_exn + json" where
  "parse_json_response ld text =
     or_else (ld text)
      (or_else (attempt ld (code_block_match text))
        (or_else (attempt ld (brace_match text))
          (or_else (ld (cleaned_text text))
            (or_else (attempt ld (map_option fix_json_issues (nested_match text)))
              (Inr (create_fallback_response text))))))"

subsection \<open>Provider selection\<close>

text \<open>
  What \<open>analyze\<close> reads from the settings and the thread context: whether each client was
  configured, the token ceiling of Groq and the Llama token count of the context.
\<close>

record orchestrator =
  groq_client_present :: bool
  gemini_configured :: bool
  groq_max_tokens :: int

text \<open>
  The world around one call of \<open>analyze\<close>: the four clock values read by the rate limiter
  (admission and record for each provider) and, for each provider, the outcome of the part
  of its \<open>_invoke\<close> function that precedes the cascade (building the prompts and the remote
  call): the raw response text, or the exception raised. The thread context is taken to be
  well formed (its subreddit is a string), so that the detection of the subreddit type at
  the head of \<open>analyze\<close>, which only feeds a log line, returns.
\<close>

record llm_world =
  t_can_groq :: real
  t_record_groq :: real
  t_can_gemini :: real
  t_record_gemini :: real
  groq_call :: "py_exn + string"
  gemini_call :: "py_exn + string"

text \<open>
  \<open>_invoke_groq\<close> and \<open>_invoke_gemini\<close>: the remote call, then the cascade on the raw
  response. An exception of either one leaves the function.
\<close>

definition invoke_groq :: "(string \<Rightarrow> loads_result) \<Rightarrow> llm_world \<Rightarrow> py_exn + json" where
  "invoke_groq ld w = (case groq_call w of Inl e \<Rightarrow> Inl e | Inr raw \<Rightarrow> parse_json_response ld raw)"

definition invoke_gemini :: "(string \<Rightarrow> loads_result) \<Rightarrow> llm_world \<Rightarrow> py_exn + json" where
  "invoke_gemini ld w =
     (case gemini_call w of Inl e \<Rightarrow> Inl e | Inr raw \<Rightarrow> parse_json_response ld raw)"

datatype llm_event = RecordedGroq real | CalledGroq | RecordedGemini real | CalledGemini

text \<open>
  \<open>analyze\<close>: the result or the \<open>RuntimeError\<close> raised, the rate limiter afterwards, and
  the usage records and invocations in the order in which they happened. An exception of
  \<open>_invoke_groq\<close> is caught and Gemini is tried; an exception of \<open>_invoke_gemini\<close> is
  raised again as \<open>RuntimeError\<close>.
\<close>

definition groq_step ::
  "(string \<Rightarrow> loads_result) \<Rightarrow> orchestrator \<Rightarrow> llm_world \<Rightarrow> int \<Rightarrow> RateLimitManager
   \<Rightarrow> json option \<times> RateLimitManager \<times> llm_event list" where
  "groq_step ld orch w token_count_llama rl =
     (if groq_client_present orch \<and> token_count_llama < groq_max_tokens orch then
        (case can_use_groq (t_can_groq w) rl of
           (True, rl1) \<Rightarrow>
             (let rl2 = record_groq_usage (t_record_groq w) rl1;
                  events = [RecordedGroq (t_record_groq w), CalledGroq]
              in case invoke_groq ld w of
                   Inr v \<Rightarrow> (Some v, rl2, events)
                 | Inl e \<Rightarrow> (None, rl2, events))
         | (False, rl1) \<Rightarrow> (None, rl1, []))
      else (None, rl, []))"

definition analyze ::
  "(string \<Rightarrow> loads_result) \<Rightarrow> orchestrator \<Rightarrow> llm_world \<Rightarrow> int \<Rightarrow> RateLimitManager
   \<Rightarrow> (py_exn + json) \<times> RateLimitManager \<times> llm_event list" where
  "analyze ld orch w token_count_llama rl =
     (case groq_step ld orch w token_count_llama rl of
        (Some v, rl2, events) \<Rightarrow> (Inr v, rl2, events)
      | (None, rl2, events) \<Rightarrow>
         (if gemini_configured orch then
            (case can_use_gemini (t_can_gemini w) rl2 of
               (True, rl3) \<Rightarrow>
                 (let rl4 = record_gemini_usage (t_record_gemini w) rl3;
                      events' = events @ [RecordedGemini (t_record_gemini w), CalledGemini]
                  in case invoke_gemini ld w of
                       Inr v \<Rightarrow> (Inr v, rl4, events')
                     | Inl e \<Rightarrow>
                        (Inl (RuntimeError (''All LLMs failed. Last error: '' @ exn_str e)),
                         rl4, events'))
             | (False, rl3) \<Rightarrow>
                 (Inl (RuntimeError ''No LLM available (rate limits exceeded or not configured)''),
                  rl3, events))
          else (Inl (RuntimeError ''No LLM available (rate limits exceeded or not configured)''),
                rl2, events)))"

text \<open>
  A provider response that wraps a text in a fenced code block, and worlds for the closed
  examples: in the first the call to Groq raises and the call to Gemini answers, in the
  second Groq answers with a text that holds no JSON.
\<close>

definition fenced :: "string \<Rightarrow> string" where
  "fenced j = fence @ ''json'' @ [CHR 0x0A] @ j @ [CHR 0x0A] @ fence"

definition orch0 :: orchestrator where
  "orch0 = \<lparr> groq_client_present = True, gemini_configured = True, groq_max_tokens = 120000 \<rparr>"

definition world0 :: llm_world where
  \<open>world0 = \<lparr> t_can_groq = 1000, t_record_groq = 1001, t_can_gemini = 1002,
              t_record_gemini = 1003, groq_call = Inl (OtherException ''timeout''),
              gemini_call = Inr (fenced ''{"consensus": "ok",}'') \<rparr>\<close>

definition world1 :: llm_world where
  "world1 = \<lparr> t_can_groq = 1000, t_record_groq = 1001, t_can_gemini = 1002,
              t_record_gemini = 1003, groq_call = Inr ''no json here'',
              gemini_call = Inl (OtherException ''not called'') \<rparr>"

text \<open>
  A third world: Groq answers with an integer literal of 4301 digits, on which the decoder
  raises \<open>ValueError\<close>, and Gemini answers as in the first.
\<close>

definition world2 :: llm_world where
  \<open>world2 = \<lparr> t_can_groq = 1000, t_record_groq = 1001, t_can_gemini = 1002,
              t_record_gemini = 1003, groq_call = Inr (replicate 4301 CHR ''7''),
              gemini_call = Inr (fenced ''{"consensus": "ok",}'') \<rparr>\<close>

section \<open>main.py: submission and status polling\<close>

text \<open>
  The regular expressions of \<open>REDDIT_URL_PATTERNS\<close>, searched anywhere in the URL.
  Every optional group and every character class is followed by a literal that the group
  or class cannot match, so the greedy choice is the only one that can succeed.
\<close>

definition is_alnum :: "char \<Rightarrow> bool" where
  "is_alnum c = (let n = (of_char c :: nat) in
     (48 \<le> n \<and> n \<le> 57) \<or> (65 \<le> n \<and> n \<le> 90) \<or> (97 \<le> n \<and> n \<le> 122))"

definition is_word :: "char \<Rightarrow> bool" where
  "is_word c = (is_alnum c \<or> c = CHR ''_'')"

definition class_plus :: "(char \<Rightarrow> bool) \<Rightarrow> string \<Rightarrow> string option" where
  "class_plus P s = (if takeWhile P s = [] then None else Some (dropWhile P s))"

definition starts_alnum :: "string \<Rightarrow> bool" where
  "starts_alnum s = (case s of [] \<Rightarrow> False | c # _ \<Rightarrow> is_alnum c)"

definition scheme :: "string \<Rightarrow> string option" where
  "scheme s = (case strip_prefix ''http'' s of None \<Rightarrow> None
               | Some r \<Rightarrow> strip_prefix ''://'' (opt_prefix ''s'' r))"

definition sub_path :: "string \<Rightarrow> string \<Rightarrow> bool" where
  "sub_path sep s = (case strip_prefix ''reddit.com/r/'' s of None \<Rightarrow> False
     | Some r1 \<Rightarrow> (case class_plus is_word r1 of None \<Rightarrow> False
     | Some r2 \<Rightarrow> (case strip_prefix sep r2 of None \<Rightarrow> False
     | Some r3 \<Rightarrow> starts_alnum r3)))"

definition pattern_thread :: "string \<Rightarrow> bool" where
  "pattern_thread s = (case scheme s of None \<Rightarrow> False
     | Some r \<Rightarrow> sub_path ''/comments/'' (opt_prefix ''www.'' r))"

definition pattern_short :: "string \<Rightarrow> bool" where
  "pattern_short s = (case scheme s of None \<Rightarrow> False
     | Some r \<Rightarrow> (case strip_prefix ''redd.it/'' r of None \<Rightarrow> False
     | Some r1 \<Rightarrow> starts_alnum r1))"

definition pattern_old :: "string \<Rightarrow> bool" where
  "pattern_old s = (case scheme s of None \<Rightarrow> False
     | Some r \<Rightarrow> (case strip_prefix ''old.'' r of None \<Rightarrow> False
     | Some r1 \<Rightarrow> sub_path ''/comments/'' r1))"

definition pattern_share :: "string \<Rightarrow> bool" where
  "pattern_share s = (case scheme s of None \<Rightarrow> False
     | Some r \<Rightarrow> sub_path ''/s/'' (opt_prefix ''www.'' r))"

fun re_search :: "(string \<Rightarrow> bool) \<Rightarrow> string \<Rightarrow> bool" where
  "re_search m [] = m []"
| "re_search m (c # cs) = (m (c # cs) \<or> re_search m cs)"

definition validate_reddit_url :: "string \<Rightarrow> bool" where
  "validate_reddit_url url =
     (re_search pattern_thread url \<or> re_search pattern_short url \<or>
      re_search pattern_old url \<or> re_search pattern_share url)"

text \<open>
  \<open>str(uuid.uuid4())\<close>: the 128-bit value printed as 32 lower-case hexadecimal digits in
  groups of 8, 4, 4, 4 and 12 separated by hyphens.
\<close>

definition uuid_hex :: "128 word \<Rightarrow> string" where
  "uuid_hex u = map (\<lambda>i. hex_digit (unat (drop_bit (4 * (31 - i)) u AND 15))) [0..<32]"

definition uuid_str :: "128 word \<Rightarrow> string" where
  "uuid_str u = (let h = uuid_hex u in
     take 8 h @ ''-'' @ take 4 (drop 8 h) @ ''-'' @ take 4 (drop 12 h) @ ''-'' @
     take 4 (drop 16 h) @ ''-'' @ drop 20 h)"

record AnalyzeRequest =
  url :: string
  force_refresh :: bool
  deep_scan :: bool
  lite_mode :: bool

datatype http_error = HTTPException nat string

text \<open>
  \<open>submit_analysis\<close>. The value \<open>cached\<close> is what \<open>await cache_manager.get(request.url)\<close>
  returned (it is read only when \<open>force_refresh\<close> is false); \<open>u\<close> is the value drawn by
  \<open>uuid.uuid4()\<close>; \<open>utcnow\<close> is \<open>datetime.utcnow()\<close>. The result is the descriptor sent
  back, the job store afterwards, and the id of the background task that was created.
\<close>

definition submit_analysis ::
  "AnalyzeRequest \<Rightarrow> json option \<Rightarrow> 128 word \<Rightarrow> real \<Rightarrow> real \<Rightarrow> real \<Rightarrow> JobStore
   \<Rightarrow> http_error + (JobStatus \<times> JobStore \<times> string option)" where
  "submit_analysis request cached u utcnow t_sweep t_add store =
     (if \<not> validate_reddit_url (url request) then
        Inl (HTTPException 400 ''Invalid Reddit URL. Please provide a valid Reddit thread URL.'')
      else if \<not> force_refresh request \<and> (case cached of None \<Rightarrow> False | Some c \<Rightarrow> py_truthy c) then
        Inr (\<lparr> job_id = ''cache'', status = Completed, progress = 100, result = cached,
                error = None, created_at = utcnow \<rparr>, store, None)
      else
        (let jid = uuid_str u;
             job_status = \<lparr> job_id = jid, status = Queued, progress = 0, result = None,
                            error = None, created_at = utcnow \<rparr>
         in Inr (job_status, JobStore_add t_sweep t_add jid job_status store, Some jid)))"

definition get_job_status :: "JobStore \<Rightarrow> string \<Rightarrow> http_error + JobStatus" where
  "get_job_status store jid =
     (case JobStore_get store jid of
        None \<Rightarrow> Inl (HTTPException 404 ''Job not found'')
      | Some job \<Rightarrow> Inr job)"

text \<open>
  The job stores the running service can be in: the store built at start-up, and the store
  after a submission, after a statistics or health request (\<open>job_store.stats()\<close>), after an
  update issued by a pipeline, and after the shutdown sweep. No other statement of
  \<open>main.py\<close> writes to the store.
\<close>

inductive reachable :: "JobStore \<Rightarrow> bool" where
  start: "reachable (JobStore_init None job_ttl_seconds)"
| submit: "reachable s \<Longrightarrow>
     submit_analysis request cached u utcnow t_sweep t_add s = Inr (descr, s', task) \<Longrightarrow>
     reachable s'"
| stats: "reachable s \<Longrightarrow> reachable (snd (JobStore_stats now s))"
| pipeline_update: "reachable s \<Longrightarrow> reachable (snd (JobStore_update jid job s))"
| shutdown: "reachable s \<Longrightarrow> reachable (snd (JobStore_cleanup now s))"

definition req0 :: AnalyzeRequest where
  "req0 = \<lparr> url = ''https://reddit.com/r/test/comments/abc123/x'', force_refresh = False,
            deep_scan = False, lite_mode = False \<rparr>"


text \<open>The store after one submission that missed the cache.\<close>

definition descr1 :: JobStatus where
  "descr1 = \<lparr> job_id = uuid_str 0, status = Queued, progress = 0, result = None,
              error = None, created_at = 5 \<rparr>"

definition store1 :: JobStore where
  "store1 = JobStore_add 5 5 (uuid_str 0) descr1 (JobStore_init None 3600)"

definition cached0 :: json where
  "cached0 = JObj [(''consensus'', JStr ''ok'')]"

section \<open>main.py: the analysis pipeline\<close>

text \<open>
  \<open>process_analysis_pipeline\<close> runs as a task of the event loop. It mutates the record it
  got from the store and hands it to \<open>job_store.update\<close>; the assignments before an
  \<open>update\<close> and the \<open>update\<close> itself run without an \<open>await\<close> between them, so the states of
  the record that another coroutine (a poller) can read are among those passed to
  \<open>update\<close>. The model returns these records in order.

  What an awaited call does is an input: it returns a value, raises an exception, or the
  task is cancelled while it is suspended there (\<open>asyncio.CancelledError\<close> is not an
  \<open>Exception\<close>, and no handler of the pipeline catches it).
\<close>

datatype 'a outcome = Returns 'a | Raises py_exn | Cancelled

text \<open>
  The calls of one run: the extraction of the thread context by the miner, the analysis by
  the orchestrator, the enrichment of the links, the construction of the
  \<open>AnalysisResult\<close> with its \<open>model_dump()\<close> (reads of the context, \<open>float\<close> conversions and
  validation, without suspension; it gets the context, the answer of the orchestrator and
  the enriched links), and the write to the cache.
\<close>

record 'ctx pipeline_world =
  miner_extract :: "string \<Rightarrow> bool \<Rightarrow> bool \<Rightarrow> 'ctx outcome"
  llm_analyze :: "'ctx \<Rightarrow> json outcome"
  enrich_links :: "json \<Rightarrow> json outcome"
  build_result :: "'ctx \<Rightarrow> json \<Rightarrow> json \<Rightarrow> py_exn + json"
  cache_save :: "string \<Rightarrow> json \<Rightarrow> unit outcome"

text \<open>
  \<open>llm_raw.get(key, default)\<close>: the answer of the orchestrator is whatever the cascade
  decoded; on a value that is not a dictionary the attribute lookup raises
  \<open>AttributeError\<close>.
\<close>

fun type_name :: "json \<Rightarrow> string" where
  "type_name JNull = ''NoneType''"
| "type_name (JBool b) = ''bool''"
| "type_name (JInt i) = ''int''"
| "type_name (JFloat q) = ''float''"
| "type_name (JNonFinite x) = ''float''"
| "type_name (JStr s) = ''str''"
| "type_name (JArr xs) = ''list''"
| "type_name (JObj kvs) = ''dict''"

definition dict_get :: "json \<Rightarrow> string \<Rightarrow> json \<Rightarrow> py_exn + json" where
  "dict_get v k dflt =
     (case v of
        JObj kvs \<Rightarrow> Inr (case map_of kvs k of Some x \<Rightarrow> x | None \<Rightarrow> dflt)
      | _ \<Rightarrow> Inl (OtherException
                 ([CHR 0x27] @ type_name v @ [CHR 0x27] @ '' object has no attribute ''
                  @ [CHR 0x27] @ ''get'' @ [CHR 0x27])))"

text \<open>
  The three handlers: \<open>ValueError\<close> and \<open>RuntimeError\<close> store \<open>str(e)[:200]\<close>, any other
  \<open>Exception\<close> stores \<open>"Unexpected error: "\<close> and \<open>str(e)[:180]\<close>. The result is the record
  passed to \<open>update\<close>.
\<close>

definition fail_job :: "py_exn \<Rightarrow> JobStatus \<Rightarrow> JobStatus" where
  "fail_job e job =
     job\<lparr> status := Failed,
          error := Some (case e of
                           ValueError m \<Rightarrow> take 200 m
                         | RuntimeError m \<Rightarrow> take 200 m
                         | OtherException m \<Rightarrow> ''Unexpected error: '' @ take 180 m) \<rparr>"

text \<open>
  The stages of the \<open>try\<close> block, last first. Each gets the record as it is when the stage
  starts and returns the records passed to \<open>update\<close> from there on.
\<close>

definition save_stage :: "'ctx pipeline_world \<Rightarrow> string \<Rightarrow> json \<Rightarrow> JobStatus \<Rightarrow> JobStatus list" where
  "save_stage w thread_url dump job =
     (let job = job\<lparr> progress := 95 \<rparr> in
      job # (case cache_save w thread_url dump of
               Cancelled \<Rightarrow> []
             | Raises e \<Rightarrow> [fail_job e job]
             | Returns _ \<Rightarrow> [job\<lparr> result := Some dump, status := Completed, progress := 100 \<rparr>]))"

definition build_stage ::
  "'ctx pipeline_world \<Rightarrow> string \<Rightarrow> 'ctx \<Rightarrow> json \<Rightarrow> json \<Rightarrow> JobStatus \<Rightarrow> JobStatus list" where
  "build_stage w thread_url context llm_raw enriched_links job =
     (let job = job\<lparr> progress := 85 \<rparr> in
      job # (case build_result w context llm_raw enriched_links of
               Inl e \<Rightarrow> [fail_job e job]
             | Inr dump \<Rightarrow> save_stage w thread_url dump job))"

definition enrich_stage ::
  "'ctx pipeline_world \<Rightarrow> string \<Rightarrow> 'ctx \<Rightarrow> json \<Rightarrow> JobStatus \<Rightarrow> JobStatus list" where
  "enrich_stage w thread_url context llm_raw job =
     (let job = job\<lparr> progress := 70 \<rparr> in
      job # (case dict_get llm_raw ''useful_links'' (JArr []) of
               Inl e \<Rightarrow> [fail_job e job]
             | Inr raw_links \<Rightarrow>
                if py_truthy raw_links then
                  (case enrich_links w raw_links of
                     Cancelled \<Rightarrow> []
                   | Raises e \<Rightarrow> build_stage w thread_url context llm_raw raw_links job
                   | Returns enriched_links \<Rightarrow> build_stage w thread_url context llm_raw enriched_links job)
                else build_stage w thread_url context llm_raw (JArr []) job))"

definition analyze_stage :: "'ctx pipeline_world \<Rightarrow> string \<Rightarrow> 'ctx \<Rightarrow> JobStatus \<Rightarrow> JobStatus list" where
  "analyze_stage w thread_url context job =
     (let job = job\<lparr> progress := 35 \<rparr> in
      job # (case llm_analyze w context of
               Cancelled \<Rightarrow> []
             | Raises e \<Rightarrow> [fail_job e job]
             | Returns llm_raw \<Rightarrow> enrich_stage w thread_url context llm_raw job))"

definition extract_stage ::
  "'ctx pipeline_world \<Rightarrow> string \<Rightarrow> bool \<Rightarrow> bool \<Rightarrow> JobStatus \<Rightarrow> JobStatus list" where
  "extract_stage w thread_url deep lite job =
     (let job = job\<lparr> status := Processing, progress := 10 \<rparr> in
      job # (case miner_extract w thread_url deep lite of
               Cancelled \<Rightarrow> []
             | Raises e \<Rightarrow> [fail_job e job]
             | Returns context \<Rightarrow> analyze_stage w thread_url context job))"

text \<open>
  \<open>process_analysis_pipeline\<close>: without a record under the id nothing is updated.
\<close>

definition process_analysis_pipeline ::
  "'ctx pipeline_world \<Rightarrow> JobStore \<Rightarrow> string \<Rightarrow> string \<Rightarrow> bool \<Rightarrow> bool \<Rightarrow> JobStatus list" where
  "process_analysis_pipeline w store jid thread_url deep lite =
     (case JobStore_get store jid of
        None \<Rightarrow> []
      | Some job \<Rightarrow> extract_stage w thread_url deep lite job)"

text \<open>
  Worlds for the closed examples: in the first every call returns and the orchestrator
  names no links; in the second the orchestrator raises; in the third the orchestrator
  answers with a list and the task is never reached by the enrichment.
\<close>

definition pworld0 :: "unit pipeline_world" where
  "pworld0 = \<lparr> miner_extract = (\<lambda>thread_url deep lite. Returns ()),
               llm_analyze = (\<lambda>context. Returns cached0),
               enrich_links = (\<lambda>links. Returns links),
               build_result = (\<lambda>context llm_raw links. Inr llm_raw),
               cache_save = (\<lambda>thread_url dump. Returns ()) \<rparr>"

definition pworld1 :: "unit pipeline_world" where
  "pworld1 = pworld0\<lparr> llm_analyze :=
     (\<lambda>context. Raises (RuntimeError ''No LLM available (rate limits exceeded or not configured)'')) \<rparr>"

definition pworld2 :: "unit pipeline_world" where
  "pworld2 = pworld0\<lparr> llm_analyze := (\<lambda>context. Returns (JArr [])) \<rparr>"

section \<open>Properties of the job store\<close>

lemma fold_delete_jobs:
  "map_of (js_jobs (fold (\<lambda>jid st. st\<lparr> js_jobs := AList.delete jid (js_jobs st),
        js_created_at := AList.delete jid (js_created_at st) \<rparr>) ks s)) k =
   (if k \<in> set ks then None else map_of (js_jobs s) k)"
  by (induction ks arbitrary: s) (auto simp: delete_conv')

lemma fold_delete_created:
  "map_of (js_created_at (fold (\<lambda>jid st. st\<lparr> js_jobs := AList.delete jid (js_jobs st),
        js_created_at := AList.delete jid (js_created_at st) \<rparr>) ks s)) k =
   (if k \<in> set ks then None else map_of (js_created_at s) k)"
  by (induction ks arbitrary: s) (auto simp: delete_conv')

lemma fold_delete_ttl:
  "js_ttl (fold (\<lambda>jid st. st\<lparr> js_jobs := AList.delete jid (js_jobs st),
        js_created_at := AList.delete jid (js_created_at st) \<rparr>) ks s) = js_ttl s"
  by (induction ks arbitrary: s) auto

lemma cleanup_jobs:
  "map_of (js_jobs (snd (JobStore_cleanup now s))) k =
   (if k \<in> set (expired_ids now s) then None else map_of (js_jobs s) k)"
  by (simp add: JobStore_cleanup_def Let_def fold_delete_jobs)

lemma expired_ids_mem:
  "map_of (js_created_at s) k = Some c \<Longrightarrow> c < now - real_of_int (js_ttl s) \<Longrightarrow>
   k \<in> set (expired_ids now s)"
proof -
  assume a: "map_of (js_created_at s) k = Some c" and b: "c < now - real_of_int (js_ttl s)"
  from a have "(k, c) \<in> set (js_created_at s)" by (rule map_of_SomeD)
  with b show ?thesis
    unfolding expired_ids_def by force
qed

text \<open>
  C1 (as stated) fails: \<open>JobStore.get\<close> is a dictionary lookup and never sweeps. A job
  created at time 0 with a TTL of 3600 seconds is still returned by \<open>get\<close> although its
  creation time is older than the TTL at time 10000.
\<close>

theorem C1_get_expired_counterexample:
  "map_of (js_created_at store0) ''job-1'' = Some 0 \<and>
   (0::real) < 10000 - real_of_int (js_ttl store0) \<and>
   JobStore_get store0 ''job-1'' = Some job0"
  by (simp add: store0_def JobStore_add_def JobStore_cleanup_def expired_ids_def
      JobStore_init_def JobStore_get_def Let_def)

text \<open>
  C1 (amended): \<open>get\<close> returns exactly what the dictionary holds, without looking at the
  clock; a job whose recorded creation time is older than the TTL is not found once a sweep
  has run, and a sweep runs in \<open>cleanup\<close>, at the start of \<open>stats\<close> and at the start of
  \<open>add\<close>.
\<close>

theorem C1_get_after_sweep:
  assumes "map_of (js_created_at s) jid = Some c"
      and "c < now - real_of_int (js_ttl s)"
  shows "JobStore_get s jid = map_of (js_jobs s) jid
       \<and> JobStore_get (snd (JobStore_cleanup now s)) jid = None
       \<and> JobStore_get (snd (JobStore_stats now s)) jid = None
       \<and> (jid' \<noteq> jid \<longrightarrow> JobStore_get (JobStore_add now t_add jid' st s) jid = None)"
proof -
  have mem: "jid \<in> set (expired_ids now s)"
    using assms by (rule expired_ids_mem)
  have swept: "map_of (js_jobs (snd (JobStore_cleanup now s))) jid = None"
    using mem by (simp add: cleanup_jobs)
  have "JobStore_get (snd (JobStore_stats now s)) jid = None"
    using swept by (simp add: JobStore_stats_def JobStore_get_def Let_def)
  moreover have "jid' \<noteq> jid \<longrightarrow> JobStore_get (JobStore_add now t_add jid' st s) jid = None"
    using swept by (simp add: JobStore_add_def JobStore_get_def Let_def update_conv')
  ultimately show ?thesis
    using swept by (simp add: JobStore_get_def)
qed

theorem C1_get_after_sweep_witness:
  "JobStore_get store0 ''job-1'' = Some job0
   \<and> JobStore_get (snd (JobStore_cleanup 10000 store0)) ''job-1'' = None
   \<and> JobStore_get (snd (JobStore_stats 10000 store0)) ''job-1'' = None
   \<and> JobStore_get (JobStore_add 10000 10001 ''job-2'' job0 store0) ''job-1'' = None"
proof -
  have a: "map_of (js_created_at store0) ''job-1'' = Some 0"
    by (simp add: store0_def JobStore_add_def JobStore_cleanup_def expired_ids_def
        JobStore_init_def Let_def)
  have b: "(0::real) < 10000 - real_of_int (js_ttl store0)"
    by (simp add: store0_def JobStore_add_def JobStore_cleanup_def expired_ids_def
        JobStore_init_def Let_def)
  have c: "map_of (js_jobs store0) ''job-1'' = Some job0"
    by (simp add: store0_def JobStore_add_def JobStore_cleanup_def expired_ids_def
        JobStore_init_def Let_def)
  show ?thesis
    using C1_get_after_sweep [OF a b, of "''job-2''" 10001 job0] c by simp
qed

subsection \<open>The cache-hit sentinel\<close>

lemma length_uuid_str: "length (uuid_str u) = 36"
  by (simp add: uuid_str_def uuid_hex_def Let_def)

lemma uuid_str_not_cache: "uuid_str u \<noteq> ''cache''"
proof
  assume "uuid_str u = ''cache''"
  then have "length (uuid_str u) = length ''cache''" by simp
  then show False by (simp add: length_uuid_str)
qed

lemma reachable_no_sentinel: "reachable s \<Longrightarrow> map_of (js_jobs s) ''cache'' = None"
proof (induction rule: reachable.induct)
  case (start job_ttl_seconds)
  show ?case by (simp add: JobStore_init_def)
next
  case (submit s request cached u utcnow t_sweep t_add descr s' task)
  from submit.hyps(2) have "s' = s \<or> s' = JobStore_add t_sweep t_add (uuid_str u)
      \<lparr> job_id = uuid_str u, status = Queued, progress = 0, result = None,
        error = None, created_at = utcnow \<rparr> s"
    by (auto simp: submit_analysis_def Let_def split: if_splits)
  then show ?case
  proof
    assume "s' = s"
    with submit.IH show ?thesis by simp
  next
    assume e: "s' = JobStore_add t_sweep t_add (uuid_str u)
      \<lparr> job_id = uuid_str u, status = Queued, progress = 0, result = None,
        error = None, created_at = utcnow \<rparr> s"
    have "''cache'' \<noteq> uuid_str u" using uuid_str_not_cache [of u] by simp
    then show ?thesis
      using submit.IH unfolding e
      by (simp add: JobStore_add_def Let_def update_conv' cleanup_jobs)
  qed
next
  case (stats s now)
  then show ?case by (simp add: JobStore_stats_def Let_def cleanup_jobs)
next
  case (pipeline_update s jid job)
  then show ?case by (auto simp: JobStore_update_def update_conv')
next
  case (shutdown s now)
  then show ?case by (simp add: cleanup_jobs)
qed

text \<open>
  C10: on a cache hit the submission answers with the id \<open>''cache''\<close>, leaves the job store
  as it was and creates no task; no reachable job store holds that id, so polling it is
  answered with 404.
\<close>

theorem C10_sentinel_never_stored:
  "(reachable s \<longrightarrow> get_job_status s ''cache'' = Inl (HTTPException 404 ''Job not found''))
   \<and> (validate_reddit_url (url request) \<and> \<not> force_refresh request \<and> py_truthy c \<longrightarrow>
        submit_analysis request (Some c) u utcnow t_sweep t_add s =
          Inr (\<lparr> job_id = ''cache'', status = Completed, progress = 100, result = Some c,
                  error = None, created_at = utcnow \<rparr>, s, None))"
  by (auto simp: get_job_status_def JobStore_get_def submit_analysis_def
      dest: reachable_no_sentinel)

theorem C10_sentinel_never_stored_witness:
  "reachable store1
   \<and> get_job_status store1 ''cache'' = Inl (HTTPException 404 ''Job not found'')
   \<and> validate_reddit_url (url req0) \<and> \<not> force_refresh req0 \<and> py_truthy cached0
   \<and> submit_analysis req0 (Some cached0) 7 9 9 9 store1 =
        Inr (\<lparr> job_id = ''cache'', status = Completed, progress = 100, result = Some cached0,
                error = None, created_at = 9 \<rparr>, store1, None)"
proof -
  have v: "validate_reddit_url (url req0)"
    by (simp add: req0_def validate_reddit_url_def pattern_thread_def scheme_def
        strip_prefix_def opt_prefix_def sub_path_def class_plus_def is_word_def
        is_alnum_def starts_alnum_def)
  have f: "\<not> force_refresh req0" by (simp add: req0_def)
  have t: "py_truthy cached0" by (simp add: cached0_def)
  have "submit_analysis req0 None 0 5 5 5 (JobStore_init None 3600) =
          Inr (descr1, store1, Some (uuid_str 0))"
    using v f by (simp add: submit_analysis_def Let_def descr1_def store1_def)
  then have r: "reachable store1"
    by (rule reachable.submit [OF reachable.start])
  show ?thesis
    using C10_sentinel_never_stored [of store1 req0 cached0 7 9 9 9] r v f t by simp
qed

section \<open>Properties of the rate limiter\<close>

lemma clean_sorted_lower:
  "sorted h \<Longrightarrow> \<forall>t\<in>set (clean_history now w h). now - w \<le> t"
  unfolding clean_history_def
proof (induction h)
  case Nil
  then show ?case by simp
next
  case (Cons a h)
  then show ?case by (auto simp: not_less)
qed

lemma clean_subset: "set (clean_history now w h) \<subseteq> set h"
  unfolding clean_history_def by (rule set_dropWhileD [THEN subsetI]) 

lemma clean_sorted: "sorted h \<Longrightarrow> sorted (clean_history now w h)"
  unfolding clean_history_def by (rule sorted_dropWhile)

lemma deque_append_set: "set (deque_append m x h) \<subseteq> insert x (set h)"
proof -
  have "set (deque_append m x h) \<subseteq> set (h @ [x])"
    unfolding deque_append_def by (rule set_drop_subset)
  then show ?thesis by simp
qed

lemma deque_append_sorted:
  "sorted h \<Longrightarrow> \<forall>t\<in>set h. t \<le> x \<Longrightarrow> sorted (deque_append m x h)"
  unfolding deque_append_def by (rule sorted_wrt_drop) (simp add: sorted_append)

lemma upper_mono: "\<forall>t\<in>set h. t \<le> T \<Longrightarrow> T \<le> T' \<Longrightarrow> \<forall>t\<in>set h. t \<le> (T'::real)"
  by auto

lemma clean_upper:
  "\<forall>t\<in>set h. t \<le> T \<Longrightarrow> T \<le> T' \<Longrightarrow> \<forall>t\<in>set (clean_history now w h). t \<le> T'"
  using clean_subset [of now w h] by fastforce

lemma deque_append_upper:
  "\<forall>t\<in>set h. t \<le> T \<Longrightarrow> T \<le> x \<Longrightarrow> \<forall>t\<in>set (deque_append m x h). t \<le> (x::real)"
  using deque_append_set [of m x h] by fastforce

lemma exec_op_ordered:
  assumes "ordered_upto T r" and "sorted (T # op_times op)"
  shows "ordered_upto (last (T # op_times op)) (exec_op op r)"
proof -
  from assms(1) have sg: "sorted (groq_history r)" and sm: "sorted (gemini_history r)"
    and ug: "\<forall>t\<in>set (groq_history r). t \<le> T" and um: "\<forall>t\<in>set (gemini_history r). t \<le> T"
    by (simp_all add: ordered_upto_def)
  show ?thesis
  proof (cases op)
    case (CanUseGroq now)
    with assms(2) have le: "T \<le> now" by simp
    show ?thesis
      using CanUseGroq sm clean_sorted [OF sg] clean_upper [OF ug le] upper_mono [OF um le]
      by (simp add: ordered_upto_def can_use_groq_def Let_def)
  next
    case (CanUseGemini now)
    with assms(2) have le: "T \<le> now" by simp
    show ?thesis
      using CanUseGemini sg clean_sorted [OF sm] clean_upper [OF um le] upper_mono [OF ug le]
      by (simp add: ordered_upto_def can_use_gemini_def Let_def)
  next
    case (RecordGroq now)
    with assms(2) have le: "T \<le> now" by simp
    have "sorted (deque_append groq_maxlen now (groq_history r))"
      using sg upper_mono [OF ug le] by (rule deque_append_sorted)
    then show ?thesis
      using RecordGroq sm deque_append_upper [OF ug le] upper_mono [OF um le]
      by (simp add: ordered_upto_def record_groq_usage_def)
  next
    case (RecordGemini now)
    with assms(2) have le: "T \<le> now" by simp
    have "sorted (deque_append gemini_maxlen now (gemini_history r))"
      using sm upper_mono [OF um le] by (rule deque_append_sorted)
    then show ?thesis
      using RecordGemini sg deque_append_upper [OF um le] upper_mono [OF ug le]
      by (simp add: ordered_upto_def record_gemini_usage_def)
  next
    case (GetStats t1 t2)
    with assms(2) have le: "T \<le> t2" by simp
    show ?thesis
      using GetStats clean_sorted [OF sg] clean_sorted [OF sm]
        clean_upper [OF ug le] clean_upper [OF um le]
      by (simp add: ordered_upto_def get_stats_def Let_def)
  qed
qed

lemma run_ordered:
  "ordered_upto T r \<Longrightarrow> sorted (T # clock_reads ops) \<Longrightarrow>
   ordered_upto (last (T # clock_reads ops)) (fold exec_op ops r)"
proof (induction ops arbitrary: T r)
  case Nil
  then show ?case by (simp add: clock_reads_def)
next
  case (Cons op ops)
  have s1: "sorted (T # op_times op)"
    using Cons.prems(2) by (auto simp: clock_reads_def sorted_append)
  have o1: "ordered_upto (last (T # op_times op)) (exec_op op r)"
    using Cons.prems(1) s1 by (rule exec_op_ordered)
  have s2: "sorted (last (T # op_times op) # clock_reads ops)"
    using Cons.prems(2) by (cases op) (auto simp: clock_reads_def sorted_append)
  have "last (last (T # op_times op) # clock_reads ops) = last (T # clock_reads (op # ops))"
    by (cases op) (auto simp: clock_reads_def)
  with Cons.IH [OF o1 s2] show ?case by simp
qed

lemma clean_within:
  assumes "sorted h" and "\<forall>t\<in>set h. t \<le> T" and "T \<le> now"
  shows "within_window now w (clean_history now w h)"
  using clean_sorted_lower [OF assms(1), of now w] clean_upper [OF assms(2,3), of now w]
  by (simp add: within_window_def list_all_iff)

lemma op_times_nonempty: "op_times op \<noteq> []"
  by (cases op) simp_all

lemma init_ordered: "ordered_upto T (RateLimitManager_init gl ml)"
  by (simp add: ordered_upto_def RateLimitManager_init_def)

lemma run_bound:
  assumes "sorted (clock_reads ops @ now # rest)"
  shows "\<exists>T\<le>now. ordered_upto T (fold exec_op ops (RateLimitManager_init gl ml))"
proof (cases "clock_reads ops = []")
  case True
  then have "ops = []"
    using op_times_nonempty by (cases ops) (auto simp: clock_reads_def)
  then show ?thesis using init_ordered [of now] by auto
next
  case False
  define T0 where "T0 = hd (clock_reads ops)"
  have s: "sorted (clock_reads ops)" using assms by (simp add: sorted_append)
  have s0: "sorted (T0 # clock_reads ops)"
    using s False unfolding T0_def by (cases "clock_reads ops") auto
  have "ordered_upto (last (T0 # clock_reads ops)) (fold exec_op ops (RateLimitManager_init gl ml))"
    using init_ordered s0 by (rule run_ordered)
  moreover have "last (T0 # clock_reads ops) \<le> now"
    using assms False by (simp add: sorted_append)
  ultimately show ?thesis by blast
qed

lemma window_init: "window_seconds (fold exec_op ops r) = window_seconds r"
proof (induction ops arbitrary: r)
  case Nil show ?case by simp
next
  case (Cons op ops)
  have "window_seconds (exec_op op r) = window_seconds r"
    by (cases op) (simp_all add: can_use_groq_def can_use_gemini_def record_groq_usage_def
        record_gemini_usage_def get_stats_def Let_def)
  with Cons.IH [of "exec_op op r"] show ?case by simp
qed

text \<open>
  C2 (amended): eviction happens before every read, not before a write. With a clock that
  never goes back, after an admission check of a provider, and after a statistics call,
  every timestamp kept in that provider's window lies within 60 seconds of the time that
  call read. A record call appends without evicting.
\<close>

theorem C2_window_after_read:
  "(sorted (clock_reads (ops @ [CanUseGroq now])) \<longrightarrow>
      within_window now 60
        (groq_history (fold exec_op (ops @ [CanUseGroq now]) (RateLimitManager_init gl ml))))
   \<and> (sorted (clock_reads (ops @ [CanUseGemini now])) \<longrightarrow>
      within_window now 60
        (gemini_history (fold exec_op (ops @ [CanUseGemini now]) (RateLimitManager_init gl ml))))
   \<and> (sorted (clock_reads (ops @ [GetStats t1 t2])) \<longrightarrow>
      within_window t1 60
        (groq_history (fold exec_op (ops @ [GetStats t1 t2]) (RateLimitManager_init gl ml)))
      \<and> within_window t2 60
        (gemini_history (fold exec_op (ops @ [GetStats t1 t2]) (RateLimitManager_init gl ml))))"
proof -
  let ?r = "fold exec_op ops (RateLimitManager_init gl ml)"
  have w: "window_seconds ?r = 60"
    by (simp add: window_init RateLimitManager_init_def)
  have a: "within_window now 60 (groq_history (snd (can_use_groq now ?r)))"
    if "sorted (clock_reads ops @ [now])" for now
  proof -
    from run_bound [OF that] obtain T where le: "T \<le> now" and o: "ordered_upto T ?r" by blast
    from o have "sorted (groq_history ?r)" and "\<forall>t\<in>set (groq_history ?r). t \<le> T"
      by (simp_all add: ordered_upto_def)
    then have "within_window now 60 (clean_history now 60 (groq_history ?r))"
      using le by (rule clean_within)
    then show ?thesis
      using w by (simp add: can_use_groq_def Let_def)
  qed
  have b: "within_window now 60 (gemini_history (snd (can_use_gemini now ?r)))"
    if "sorted (clock_reads ops @ [now])" for now
  proof -
    from run_bound [OF that] obtain T where le: "T \<le> now" and o: "ordered_upto T ?r" by blast
    from o have "sorted (gemini_history ?r)" and "\<forall>t\<in>set (gemini_history ?r). t \<le> T"
      by (simp_all add: ordered_upto_def)
    then have "within_window now 60 (clean_history now 60 (gemini_history ?r))"
      using le by (rule clean_within)
    then show ?thesis
      using w by (simp add: can_use_gemini_def Let_def)
  qed
  have c: "within_window t1 60 (groq_history (snd (get_stats t1 t2 ?r)))
         \<and> within_window t2 60 (gemini_history (snd (get_stats t1 t2 ?r)))"
    if "sorted (clock_reads ops @ [t1, t2])"
  proof -
    from run_bound [OF that] obtain T where le: "T \<le> t1" and o: "ordered_upto T ?r" by blast
    from that have "t1 \<le> t2" by (simp add: sorted_append)
    with le have le2: "T \<le> t2" by simp
    from o have sg: "sorted (groq_history ?r)" and ug: "\<forall>t\<in>set (groq_history ?r). t \<le> T"
      and sm: "sorted (gemini_history ?r)" and um: "\<forall>t\<in>set (gemini_history ?r). t \<le> T"
      by (simp_all add: ordered_upto_def)
    show ?thesis
      using w clean_within [OF sg ug le, of 60] clean_within [OF sm um le2, of 60]
      by (simp add: get_stats_def Let_def)
  qed
  show ?thesis using a b c by (simp add: clock_reads_def)
qed

text \<open>
  C2 (as stated) fails after a record call: \<open>record_groq_usage\<close> appends and does not
  clean, so the timestamp 1000 is still stored at time 1100.
\<close>

theorem C2_record_counterexample:
  "groq_history (fold exec_op [RecordGroq 1000, RecordGroq 1100] (RateLimitManager_init 150 8))
     = [1000, 1100]
   \<and> \<not> within_window 1100 60
        (groq_history (fold exec_op [RecordGroq 1000, RecordGroq 1100] (RateLimitManager_init 150 8)))"
  by (simp add: record_groq_usage_def deque_append_def groq_maxlen_def RateLimitManager_init_def
      within_window_def)

theorem C2_window_after_read_witness:
  "sorted (clock_reads ([RecordGroq 1000, RecordGroq 1100, RecordGemini 1100] @ [CanUseGroq 1120]))
   \<and> groq_history (fold exec_op ([RecordGroq 1000, RecordGroq 1100, RecordGemini 1100]
         @ [CanUseGroq 1120]) (RateLimitManager_init 150 8)) = [1100]
   \<and> within_window 1120 60
        (groq_history (fold exec_op ([RecordGroq 1000, RecordGroq 1100, RecordGemini 1100]
         @ [CanUseGroq 1120]) (RateLimitManager_init 150 8)))
   \<and> sorted (clock_reads ([RecordGroq 1000, RecordGroq 1100, RecordGemini 1100] @ [CanUseGemini 1120]))
   \<and> within_window 1120 60
        (gemini_history (fold exec_op ([RecordGroq 1000, RecordGroq 1100, RecordGemini 1100]
         @ [CanUseGemini 1120]) (RateLimitManager_init 150 8)))
   \<and> sorted (clock_reads ([RecordGroq 1000, RecordGroq 1100, RecordGemini 1100] @ [GetStats 1120 1130]))
   \<and> within_window 1120 60
        (groq_history (fold exec_op ([RecordGroq 1000, RecordGroq 1100, RecordGemini 1100]
         @ [GetStats 1120 1130]) (RateLimitManager_init 150 8)))
   \<and> within_window 1130 60
        (gemini_history (fold exec_op ([RecordGroq 1000, RecordGroq 1100, RecordGemini 1100]
         @ [GetStats 1120 1130]) (RateLimitManager_init 150 8)))"
proof -
  have s1: "sorted (clock_reads ([RecordGroq 1000, RecordGroq 1100, RecordGemini 1100] @ [CanUseGroq 1120]))"
    by (simp add: clock_reads_def)
  have s2: "sorted (clock_reads ([RecordGroq 1000, RecordGroq 1100, RecordGemini 1100] @ [CanUseGemini 1120]))"
    by (simp add: clock_reads_def)
  have s3: "sorted (clock_reads ([RecordGroq 1000, RecordGroq 1100, RecordGemini 1100] @ [GetStats 1120 1130]))"
    by (simp add: clock_reads_def)
  have h: "groq_history (fold exec_op ([RecordGroq 1000, RecordGroq 1100, RecordGemini 1100]
         @ [CanUseGroq 1120]) (RateLimitManager_init 150 8)) = [1100]"
    by (simp add: record_groq_usage_def record_gemini_usage_def deque_append_def groq_maxlen_def
        gemini_maxlen_def RateLimitManager_init_def can_use_groq_def clean_history_def Let_def)
  show ?thesis
    using C2_window_after_read [of "[RecordGroq 1000, RecordGroq 1100, RecordGemini 1100]"
        1120 150 8 1120 1130] s1 s2 s3 h
    by simp
qed

lemma record_usage_history:
  "history_of p (record_usage p t r) = deque_append (maxlen_of p) t (history_of p r)"
  by (cases p) (simp_all add: record_groq_usage_def record_gemini_usage_def)

lemma record_usage_limit: "limit_of p (record_usage p t r) = limit_of p r"
  by (cases p) (simp_all add: record_groq_usage_def record_gemini_usage_def)

lemma record_usage_window: "window_seconds (record_usage p t r) = window_seconds r"
  by (cases p) (simp_all add: record_groq_usage_def record_gemini_usage_def)

lemma fold_record_limit: "limit_of p (fold (record_usage p) ts r) = limit_of p r"
  by (induction ts arbitrary: r) (simp_all add: record_usage_limit)

lemma fold_record_window: "window_seconds (fold (record_usage p) ts r) = window_seconds r"
  by (induction ts arbitrary: r) (simp_all add: record_usage_window)

lemma fold_record_suffix:
  "length ts \<le> maxlen_of p \<Longrightarrow> \<exists>pre. history_of p (fold (record_usage p) ts r) = pre @ ts"
proof (induction ts rule: rev_induct)
  case Nil
  then show ?case by simp
next
  case (snoc t ts)
  then obtain pre where pre: "history_of p (fold (record_usage p) ts r) = pre @ ts" by auto
  have "length (pre @ ts @ [t]) - maxlen_of p \<le> length pre" using snoc.prems by simp
  then have "drop (length (pre @ ts @ [t]) - maxlen_of p) (pre @ ts @ [t])
      = drop (length (pre @ ts @ [t]) - maxlen_of p) pre @ ts @ [t]"
    by simp
  then show ?case
    by (simp add: record_usage_history pre deque_append_def)
qed

lemma fold_record_set:
  "set (history_of p (fold (record_usage p) ts r)) \<subseteq> set (history_of p r) \<union> set ts"
proof (induction ts arbitrary: r)
  case Nil
  show ?case by simp
next
  case (Cons t ts)
  have "set (history_of p (record_usage p t r)) \<subseteq> insert t (set (history_of p r))"
    by (simp add: record_usage_history deque_append_set)
  with Cons.IH [of "record_usage p t r"] show ?case by auto
qed

lemma fold_record_length:
  "length (history_of p (fold (record_usage p) ts r)) =
     min (maxlen_of p) (length (history_of p r) + length ts)"
  if "length (history_of p r) \<le> maxlen_of p"
  using that
proof (induction ts arbitrary: r)
  case Nil
  then show ?case by simp
next
  case (Cons t ts)
  have l: "length (history_of p (record_usage p t r)) = min (maxlen_of p) (length (history_of p r) + 1)"
    by (simp add: record_usage_history deque_append_def)
  then have "length (history_of p (record_usage p t r)) \<le> maxlen_of p" by simp
  from Cons.IH [OF this] l show ?case by simp
qed

lemma can_use_result:
  "fst (can_use p now r) =
     (int (length (clean_history now (window_seconds r) (history_of p r))) < limit_of p r)"
  by (cases p) (simp_all add: can_use_groq_def can_use_gemini_def Let_def)

lemma can_use_history:
  "history_of p (snd (can_use p now r)) = clean_history now (window_seconds r) (history_of p r)"
  by (cases p) (simp_all add: can_use_groq_def can_use_gemini_def Let_def)

lemma can_use_limit: "limit_of p (snd (can_use p now r)) = limit_of p r"
  by (cases p) (simp_all add: can_use_groq_def can_use_gemini_def Let_def)

lemma can_use_window: "window_seconds (snd (can_use p now r)) = window_seconds r"
  by (cases p) (simp_all add: can_use_groq_def can_use_gemini_def Let_def)

lemma clean_keeps_suffix:
  "\<forall>t\<in>set ts. now - w \<le> t \<Longrightarrow> length ts \<le> length (clean_history now w (pre @ ts))"
  by (auto simp: clean_history_def dropWhile_append not_less dropWhile_eq_self_iff
      dest: hd_in_set)

lemma clean_all_old:
  "\<forall>t\<in>set h. t < now - w \<Longrightarrow> clean_history now w h = []"
  by (simp add: clean_history_def)

text \<open>
  C3 (amended): for a provider whose limit \<open>n\<close> is at least 1 and at most the capacity of
  its deque, after \<open>n\<close> record calls that all fall in the window ending at the check, the
  check answers false; when the clock then advances by more than the window width, with no
  further record, the next check answers true.
\<close>

theorem C3_limit_then_recover:
  assumes "length ts = n" and "1 \<le> n" and "n \<le> maxlen_of p"
      and "limit_of p r = int n"
      and "\<forall>t\<in>set ts. now - window_seconds r \<le> t"
      and "\<forall>t\<in>set (history_of p r) \<union> set ts. t \<le> now"
      and "now + window_seconds r < now'"
  shows "\<not> fst (can_use p now (fold (record_usage p) ts r))
       \<and> fst (can_use p now' (snd (can_use p now (fold (record_usage p) ts r))))"
proof -
  let ?r1 = "fold (record_usage p) ts r"
  let ?w = "window_seconds r"
  from fold_record_suffix [of ts p r] assms(1,3)
  obtain pre where pre: "history_of p ?r1 = pre @ ts" by auto
  have "n \<le> length (clean_history now ?w (history_of p ?r1))"
    unfolding pre using clean_keeps_suffix [OF assms(5), of pre] assms(1) by simp
  then have first: "\<not> fst (can_use p now ?r1)"
    by (simp add: can_use_result fold_record_limit fold_record_window assms(4))
  have sub: "set (clean_history now ?w (history_of p ?r1)) \<subseteq> set (history_of p r) \<union> set ts"
    using clean_subset [of now ?w "history_of p ?r1"] fold_record_set [of p ts r] by blast
  have "\<forall>t\<in>set (clean_history now ?w (history_of p ?r1)). t < now' - ?w"
  proof
    fix t assume "t \<in> set (clean_history now ?w (history_of p ?r1))"
    with sub assms(6) have "t \<le> now" by blast
    with assms(7) show "t < now' - ?w" by simp
  qed
  then have "clean_history now' ?w (clean_history now ?w (history_of p ?r1)) = []"
    by (rule clean_all_old)
  then have second: "fst (can_use p now' (snd (can_use p now ?r1)))"
    using assms(2)
    by (simp add: can_use_result can_use_history can_use_limit can_use_window
        fold_record_limit fold_record_window assms(4))
  from first second show ?thesis by simp
qed

text \<open>
  C3 (as stated) fails in two places. Eviction uses a strict comparison, so a timestamp
  recorded at time 1000 is kept by a check at time 1060, exactly one window later, and the
  check still answers false. And a limit above the capacity of the deque can never be
  reached: with a Gemini limit of 101, the deque holds 100 of the 101 recorded timestamps
  and the check answers true.
\<close>

theorem C3_boundary_counterexample:
  "\<not> fst (can_use Gemini 1000 (fold (record_usage Gemini) [1000] (RateLimitManager_init 150 1)))
   \<and> (1060::real) - 1000 \<ge> window_seconds (RateLimitManager_init 150 1)
   \<and> \<not> fst (can_use Gemini 1060 (snd (can_use Gemini 1000
          (fold (record_usage Gemini) [1000] (RateLimitManager_init 150 1)))))
   \<and> fst (can_use Gemini 1000
          (fold (record_usage Gemini) (replicate 101 1000) (RateLimitManager_init 150 101)))"
proof -
  define r0 where "r0 = RateLimitManager_init 150 101"
  define ts where "ts = replicate 101 (1000::real)"
  define r where "r = fold (record_usage Gemini) ts r0"
  have h0: "gemini_history r0 = []" and w0: "window_seconds r0 = 60"
    and l0: "gemini_limit_rpm r0 = 101"
    by (simp_all add: r0_def RateLimitManager_init_def)
  have len: "length (history_of Gemini r) = 100"
    unfolding r_def using fold_record_length [of Gemini r0 ts]
    by (simp add: h0 ts_def gemini_maxlen_def)
  have "set (history_of Gemini r) \<subseteq> {1000}"
    unfolding r_def using fold_record_set [of Gemini ts r0] by (simp add: h0 ts_def)
  then have "\<forall>t\<in>set (history_of Gemini r). \<not> t < 1000 - 60" by auto
  then have "clean_history 1000 60 (history_of Gemini r) = history_of Gemini r"
    by (simp add: clean_history_def dropWhile_eq_self_iff hd_in_set)
  moreover have "window_seconds r = 60" and "limit_of Gemini r = 101"
    unfolding r_def by (simp_all add: fold_record_window fold_record_limit w0 l0)
  ultimately have "fst (can_use Gemini 1000 r)"
    using len by (simp add: can_use_result del: can_use.simps)
  then have big: "fst (can_use Gemini 1000
      (fold (record_usage Gemini) (replicate 101 1000) (RateLimitManager_init 150 101)))"
    by (simp only: r_def ts_def r0_def)
  have small: "\<not> fst (can_use Gemini 1000 (fold (record_usage Gemini) [1000] (RateLimitManager_init 150 1)))
   \<and> (1060::real) - 1000 \<ge> window_seconds (RateLimitManager_init 150 1)
   \<and> \<not> fst (can_use Gemini 1060 (snd (can_use Gemini 1000
          (fold (record_usage Gemini) [1000] (RateLimitManager_init 150 1)))))"
    by (simp add: can_use_gemini_def record_gemini_usage_def deque_append_def gemini_maxlen_def
        RateLimitManager_init_def clean_history_def Let_def)
  from small big show ?thesis by simp
qed

theorem C3_limit_then_recover_witness:
  "length [1000, 1010, 1020 :: real] = 3 \<and> (1::nat) \<le> 3 \<and> 3 \<le> maxlen_of Groq
   \<and> limit_of Groq (RateLimitManager_init 3 8) = int 3
   \<and> list_all (\<lambda>t. 1030 - window_seconds (RateLimitManager_init 3 8) \<le> t) [1000, 1010, 1020]
   \<and> list_all (\<lambda>t. t \<le> 1030) (history_of Groq (RateLimitManager_init 3 8) @ [1000, 1010, 1020])
   \<and> 1030 + window_seconds (RateLimitManager_init 3 8) < 1091
   \<and> \<not> fst (can_use Groq 1030
        (fold (record_usage Groq) [1000, 1010, 1020] (RateLimitManager_init 3 8)))
   \<and> fst (can_use Groq 1091 (snd (can_use Groq 1030
        (fold (record_usage Groq) [1000, 1010, 1020] (RateLimitManager_init 3 8)))))"
proof -
  have a: "length [1000, 1010, 1020 :: real] = 3" by simp
  have b: "(1::nat) \<le> 3" by simp
  have c: "3 \<le> maxlen_of Groq" by (simp add: groq_maxlen_def)
  have d: "limit_of Groq (RateLimitManager_init 3 8) = int 3"
    by (simp add: RateLimitManager_init_def)
  have e: "\<forall>t\<in>set [1000, 1010, 1020]. 1030 - window_seconds (RateLimitManager_init 3 8) \<le> t"
    by (simp add: RateLimitManager_init_def)
  have f: "\<forall>t\<in>set (history_of Groq (RateLimitManager_init 3 8)) \<union> set [1000, 1010, 1020]. t \<le> 1030"
    by (simp add: RateLimitManager_init_def)
  have g: "1030 + window_seconds (RateLimitManager_init 3 8) < 1091"
    by (simp add: RateLimitManager_init_def)
  have e': "list_all (\<lambda>t. 1030 - window_seconds (RateLimitManager_init 3 8) \<le> t) [1000, 1010, 1020]"
    by (simp add: RateLimitManager_init_def)
  have f': "list_all (\<lambda>t. t \<le> 1030) (history_of Groq (RateLimitManager_init 3 8) @ [1000, 1010, 1020])"
    by (simp add: RateLimitManager_init_def)
  from C3_limit_then_recover [OF a b c d e f g] a b c d e' f' g show ?thesis by blast
qed

section \<open>Properties of the cache\<close>

lemma rstrip_self: "xs = [] \<or> \<not> P (last xs) \<Longrightarrow> py_rstrip P xs = xs"
proof -
  assume "xs = [] \<or> \<not> P (last xs)"
  then have "rev xs = [] \<or> \<not> P (hd (rev xs))" by (auto simp: hd_rev)
  then have "dropWhile P (rev xs) = rev xs" by (simp only: dropWhile_eq_self_iff)
  then show ?thesis by (simp add: py_rstrip_def)
qed

lemma rstrip_last: "py_rstrip P xs \<noteq> [] \<Longrightarrow> \<not> P (last (py_rstrip P xs))"
  using hd_dropWhile [of P "rev xs"] by (simp add: py_rstrip_def last_rev)

lemma rstrip_prefix: "\<exists>ys. xs = py_rstrip P xs @ ys"
proof -
  have "rev (takeWhile P (rev xs) @ dropWhile P (rev xs)) = xs" by simp
  then have "xs = py_rstrip P xs @ rev (takeWhile P (rev xs))"
    by (simp only: rev_append py_rstrip_def)
  then show ?thesis ..
qed

lemma rstrip_hd: "py_rstrip P xs \<noteq> [] \<Longrightarrow> hd (py_rstrip P xs) = hd xs"
  using rstrip_prefix [of xs P] by (metis hd_append2)

lemma rstrip_set: "set (py_rstrip P xs) \<subseteq> set xs"
  using rstrip_prefix [of xs P] by (metis Un_upper1 set_append)

lemma lstrip_hd: "py_lstrip P xs \<noteq> [] \<Longrightarrow> \<not> P (hd (py_lstrip P xs))"
  unfolding py_lstrip_def by (rule hd_dropWhile)

lemma lstrip_self: "xs = [] \<or> \<not> P (hd xs) \<Longrightarrow> py_lstrip P xs = xs"
  by (auto simp: py_lstrip_def dropWhile_eq_self_iff)

lemma strip_hd: "py_strip s \<noteq> [] \<Longrightarrow> \<not> py_isspace (hd (py_strip s))"
proof -
  assume n: "py_strip s \<noteq> []"
  then have "hd (py_strip s) = hd (py_lstrip py_isspace s)"
    unfolding py_strip_def by (rule rstrip_hd)
  moreover have "py_lstrip py_isspace s \<noteq> []"
    using n by (auto simp: py_strip_def py_rstrip_def)
  ultimately show ?thesis using lstrip_hd [of py_isspace s] by simp
qed

lemma strip_self:
  "(s = [] \<or> (\<not> py_isspace (hd s) \<and> \<not> py_isspace (last s))) \<Longrightarrow> py_strip s = s"
  by (auto simp: py_strip_def lstrip_self rstrip_self)

lemma lower_char_idem: "py_lower_char (py_lower_char c) = py_lower_char c"
  by (auto simp: py_lower_char_def Let_def)

lemma lower_char_space: "py_isspace (py_lower_char c) = py_isspace c"
  by (auto simp: py_lower_char_def py_isspace_def Let_def)


lemma normalize_fixed:
  assumes "normalize_url u = [] \<or> \<not> py_isspace (last (normalize_url u))"
  shows "normalize_url (normalize_url u) = normalize_url u"
proof -
  let ?sl = "\<lambda>c. c = CHR ''/''"
  let ?w = "py_lower (py_strip u)"
  let ?v = "normalize_url u"
  have v: "?v = py_rstrip ?sl ?w" by (simp add: normalize_url_def)
  have noslash: "?v = [] \<or> \<not> ?sl (last ?v)"
    unfolding v using rstrip_last [of ?sl ?w] by blast
  have nosp_hd: "\<not> py_isspace (hd ?v)" if ne: "?v \<noteq> []"
  proof -
    have "hd ?v = hd ?w" using ne unfolding v by (rule rstrip_hd)
    moreover have wne: "?w \<noteq> []" using ne unfolding v by (auto simp: py_rstrip_def)
    then have sne: "py_strip u \<noteq> []" by (simp add: py_lower_def)
    have "hd ?w = py_lower_char (hd (py_strip u))"
      using sne by (simp add: py_lower_def hd_map)
    ultimately show ?thesis using strip_hd [OF sne] by (simp add: lower_char_space)
  qed
  have "set ?v \<subseteq> set ?w" unfolding v by (rule rstrip_set)
  then have "\<forall>c\<in>set ?v. py_lower_char c = c"
    by (auto simp: py_lower_def lower_char_idem)
  then have low: "py_lower ?v = ?v" by (simp add: py_lower_def map_idI)
  have st: "py_strip ?v = ?v"
    using assms nosp_hd by (intro strip_self) blast
  have "normalize_url ?v = py_rstrip ?sl (py_lower (py_strip ?v))"
    by (simp add: normalize_url_def)
  also have "\<dots> = py_rstrip ?sl ?v" by (simp only: st low)
  also have "\<dots> = ?v" using noslash by (rule rstrip_self)
  finally show ?thesis .
qed

lemma hot_get_after_setex:
  "InMemoryCache_get t_get key (InMemoryCache_setex t_set key ttl v hot) =
     (if t_get - t_set < real_of_int (hot_ttl hot) then (Some v, InMemoryCache_setex t_set key ttl v hot)
      else (None, (InMemoryCache_setex t_set key ttl v hot)
              \<lparr> hot_data := AList.delete key (hot_data (InMemoryCache_setex t_set key ttl v hot)) \<rparr>))"
  by (simp add: InMemoryCache_get_def InMemoryCache_setex_def update_conv')

lemma hot_phase_values:
  "fst (hot_phase codec f t key hot) = Some v \<Longrightarrow>
   \<exists>ts d. map_of (hot_data hot) key = Some (ts, d) \<and> loads codec d = Some v"
  by (auto simp: hot_phase_def InMemoryCache_get_def split: if_splits option.splits prod.splits)

lemma get_cases:
  "fst (DualCacheManager_get sha codec f t_get t_set t_db u c) =
     (case fst (hot_phase codec f t_get (hash_url sha u) (dc_hot c)) of
        Some v \<Rightarrow> Some v
      | None \<Rightarrow> fst (cold_phase codec f t_set t_db (hash_url sha u)
                   (c\<lparr> dc_hot := snd (hot_phase codec f t_get (hash_url sha u) (dc_hot c)) \<rparr>)))"
  by (simp add: DualCacheManager_get_def Let_def split: prod.splits option.splits)

lemma cold_phase_hit:
  assumes "\<not> cold_select_raises f" and "map_of (dc_cold c) key = Some row"
      and "loads codec (row_analysis row) = Some v"
  shows "fst (cold_phase codec f t_set t_db key c) = Some v"
  using assms by (simp add: cold_phase_def Let_def)

text \<open>
  C8: when the hot tier gives no value and the durable tier holds a row for the key that
  decodes to \<open>v\<close>, \<open>get\<close> returns \<open>v\<close> whether or not the write-back into the hot
  tier and the update of the access counter raise. When the write-back does not raise the
  hot tier holds the value with the time of the write-back; when the update does not raise
  the access counter is one higher; a step that raises leaves its tier as it was.
\<close>

theorem C8_durable_hit_best_effort:
  assumes "fst (hot_phase codec f t_get (hash_url sha u) (dc_hot c)) = None"
      and "\<not> cold_select_raises f"
      and "map_of (dc_cold c) (hash_url sha u) = Some row"
      and "loads codec (row_analysis row) = Some v"
  shows "fst (DualCacheManager_get sha codec f t_get t_set t_db u c) = Some v
     \<and> (\<not> hot_setex_raises f \<longrightarrow>
          map_of (hot_data (dc_hot (snd (DualCacheManager_get sha codec f t_get t_set t_db u c))))
            (hash_url sha u) = Some (t_set, dumps codec v))
     \<and> (hot_setex_raises f \<longrightarrow>
          dc_hot (snd (DualCacheManager_get sha codec f t_get t_set t_db u c)) =
            snd (hot_phase codec f t_get (hash_url sha u) (dc_hot c)))
     \<and> (\<not> cold_update_raises f \<longrightarrow>
          map_of (dc_cold (snd (DualCacheManager_get sha codec f t_get t_set t_db u c)))
            (hash_url sha u) =
            Some (row\<lparr> row_access_count := row_access_count row + 1, row_updated_at := t_db \<rparr>))
     \<and> (cold_update_raises f \<longrightarrow>
          dc_cold (snd (DualCacheManager_get sha codec f t_get t_set t_db u c)) = dc_cold c)"
proof -
  obtain hot1 where h: "hot_phase codec f t_get (hash_url sha u) (dc_hot c) = (None, hot1)"
    using assms(1) by (cases "hot_phase codec f t_get (hash_url sha u) (dc_hot c)") auto
  have g: "DualCacheManager_get sha codec f t_get t_set t_db u c =
      cold_phase codec f t_set t_db (hash_url sha u) (c\<lparr> dc_hot := hot1 \<rparr>)"
    by (simp add: DualCacheManager_get_def Let_def h)
  show ?thesis
    unfolding g h using assms(2-4)
    by (simp add: cold_phase_def Let_def InMemoryCache_setex_def update_conv')
qed

text \<open>
  C7 (amended): two URLs with the same normal form have the same key; normalization is
  idempotent, and the key of the normal form is the key of the URL, when the normal form is
  empty or does not end in whitespace; and a \<open>get\<close> after \<open>save\<close> returns the saved result
  when the codec decodes what it encoded, the hot write did not raise, and either the hot
  entry is read before its TTL has passed or the durable write and read both succeed.
\<close>

theorem C7_key_and_roundtrip:
  "(normalize_url ua = normalize_url ub \<longrightarrow> hash_url sha ua = hash_url sha ub)
   \<and> ((normalize_url u = [] \<or> \<not> py_isspace (last (normalize_url u))) \<longrightarrow>
        normalize_url (normalize_url u) = normalize_url u
        \<and> hash_url sha (normalize_url u) = hash_url sha u)
   \<and> (loads codec (dumps_raw codec R) = Some R \<and> dumps_raw codec R \<noteq> []
        \<and> \<not> hot_setex_raises fs
        \<and> ((\<not> hot_get_raises fg \<and> t_get - t_save < real_of_int (hot_ttl (dc_hot c)))
            \<or> (\<not> cold_upsert_raises fs \<and> \<not> cold_select_raises fg)) \<longrightarrow>
        fst (DualCacheManager_get sha codec fg t_get t_set t_db' uc
               (DualCacheManager_save sha codec fs t_save t_db uc R c)) = Some R)"
proof -
  have a: "normalize_url ua = normalize_url ub \<longrightarrow> hash_url sha ua = hash_url sha ub"
    by (simp add: hash_url_def)
  have b: "normalize_url (normalize_url u) = normalize_url u
        \<and> hash_url sha (normalize_url u) = hash_url sha u"
    if "normalize_url u = [] \<or> \<not> py_isspace (last (normalize_url u))"
    using normalize_fixed [OF that] by (simp add: hash_url_def)
  have c: "fst (DualCacheManager_get sha codec fg t_get t_set t_db' uc
               (DualCacheManager_save sha codec fs t_save t_db uc R c)) = Some R"
    if l: "loads codec (dumps_raw codec R) = Some R" and ne: "dumps_raw codec R \<noteq> []"
      and hs: "\<not> hot_setex_raises fs"
      and d: "(\<not> hot_get_raises fg \<and> t_get - t_save < real_of_int (hot_ttl (dc_hot c)))
            \<or> (\<not> cold_upsert_raises fs \<and> \<not> cold_select_raises fg)"
  proof -
    let ?key = "hash_url sha uc"
    let ?ser = "dumps_raw codec R"
    let ?c1 = "DualCacheManager_save sha codec fs t_save t_db uc R c"
    have hot1: "dc_hot ?c1 = InMemoryCache_setex t_save ?key (dc_ttl c) ?ser (dc_hot c)"
      using hs by (simp add: DualCacheManager_save_def Let_def)
    have hotmap: "map_of (hot_data (dc_hot ?c1)) ?key = Some (t_save, ?ser)"
      by (simp add: hot1 InMemoryCache_setex_def update_conv')
    show ?thesis
    proof (cases "fst (hot_phase codec fg t_get ?key (dc_hot ?c1))")
      case (Some v)
      from hot_phase_values [OF Some] hotmap l have "v = R" by auto
      with Some show ?thesis by (simp add: get_cases)
    next
      case None
      have "\<not> (\<not> hot_get_raises fg \<and> t_get - t_save < real_of_int (hot_ttl (dc_hot c)))"
      proof
        assume "\<not> hot_get_raises fg \<and> t_get - t_save < real_of_int (hot_ttl (dc_hot c))"
        then have "fst (hot_phase codec fg t_get ?key (dc_hot ?c1)) = Some R"
          using l ne
          by (simp add: hot_phase_def hot1 hot_get_after_setex)
        with None show False by simp
      qed
      with d have up: "\<not> cold_upsert_raises fs" and sel: "\<not> cold_select_raises fg" by auto
      have "\<exists>row. map_of (dc_cold ?c1) ?key = Some row \<and> row_analysis row = ?ser"
        using up by (simp add: DualCacheManager_save_def Let_def update_conv' split: option.splits)
      then obtain row where r: "map_of (dc_cold ?c1) ?key = Some row" and ra: "row_analysis row = ?ser"
        by blast
      have la: "loads codec (row_analysis row) = Some R" using ra l by simp
      have r': "map_of (dc_cold (?c1\<lparr> dc_hot := snd (hot_phase codec fg t_get ?key (dc_hot ?c1)) \<rparr>))
          ?key = Some row"
        using r by simp
      have "fst (cold_phase codec fg t_set t_db' ?key
              (?c1\<lparr> dc_hot := snd (hot_phase codec fg t_get ?key (dc_hot ?c1)) \<rparr>)) = Some R"
        using sel r' la by (rule cold_phase_hit)
      with None show ?thesis by (simp add: get_cases)
    qed
  qed
  from a b c show ?thesis by blast
qed


text \<open>
  C7 (as stated) fails twice. The normal form of a URL that ends in whitespace followed by
  a slash ends in whitespace, so normalizing it again gives another string and another
  digest input. And when the durable write raised and the hot entry has expired, \<open>get\<close>
  after \<open>save\<close> finds nothing.
\<close>

theorem C7_normalize_counterexample:
  "normalize_url ''https://Reddit.com/r/test/comments/abc123/x /''
     = ''https://reddit.com/r/test/comments/abc123/x ''
   \<and> normalize_url ''https://reddit.com/r/test/comments/abc123/x ''
     = ''https://reddit.com/r/test/comments/abc123/x''
   \<and> fst (DualCacheManager_get demo_digest py_json no_faults 90000 90000 90000 url1
          (DualCacheManager_save demo_digest py_json upsert_fails 0 0 url1 analysis0
             (DualCacheManager_init 86400))) = None"
  by code_simp

theorem C7_key_and_roundtrip_witness:
  "normalize_url ''  HTTPS://Reddit.com/r/test/comments/abc123/x/ '' = normalize_url url1
   \<and> hash_url demo_digest ''  HTTPS://Reddit.com/r/test/comments/abc123/x/ ''
       = hash_url demo_digest url1
   \<and> \<not> py_isspace (last (normalize_url ''  HTTPS://Reddit.com/r/test/comments/abc123/x/ ''))
   \<and> hash_url demo_digest (normalize_url ''  HTTPS://Reddit.com/r/test/comments/abc123/x/ '')
       = hash_url demo_digest ''  HTTPS://Reddit.com/r/test/comments/abc123/x/ ''
   \<and> loads py_json (dumps_raw py_json analysis0) = Some analysis0
   \<and> dumps_raw py_json analysis0 \<noteq> []
   \<and> \<not> hot_setex_raises upsert_fails \<and> \<not> hot_get_raises no_faults
   \<and> (10::real) - 0 < real_of_int (hot_ttl (dc_hot (DualCacheManager_init 86400)))
   \<and> fst (DualCacheManager_get demo_digest py_json no_faults 10 10 10 url1
          (DualCacheManager_save demo_digest py_json upsert_fails 0 0 url1 analysis0
             (DualCacheManager_init 86400))) = Some analysis0"
proof -
  let ?u = "''  HTTPS://Reddit.com/r/test/comments/abc123/x/ ''"
  have h1: "normalize_url ?u = normalize_url url1" by code_simp
  have h2: "\<not> py_isspace (last (normalize_url ?u))" by code_simp
  have h3: "loads py_json (dumps_raw py_json analysis0) = Some analysis0" by code_simp
  have h4: "dumps_raw py_json analysis0 \<noteq> []" by code_simp
  have h5: "\<not> hot_setex_raises upsert_fails" and h6: "\<not> hot_get_raises no_faults"
    by (simp_all add: upsert_fails_def no_faults_def)
  have h7: "(10::real) - 0 < real_of_int (hot_ttl (dc_hot (DualCacheManager_init 86400)))"
    by (simp add: DualCacheManager_init_def)
  note t = C7_key_and_roundtrip [where ua = ?u and ub = url1 and sha = demo_digest and u = ?u
      and codec = py_json and R = analysis0 and fs = upsert_fails and fg = no_faults
      and t_get = 10 and t_save = 0 and c = "DualCacheManager_init 86400"
      and t_set = 10 and t_db' = 10 and t_db = 0 and uc = url1]
  from t h1 have c1: "hash_url demo_digest ?u = hash_url demo_digest url1" by blast
  from t h2 have c2: "hash_url demo_digest (normalize_url ?u) = hash_url demo_digest ?u" by blast
  from t h3 h4 h5 h6 h7 have c3: "fst (DualCacheManager_get demo_digest py_json no_faults 10 10 10 url1
          (DualCacheManager_save demo_digest py_json upsert_fails 0 0 url1 analysis0
             (DualCacheManager_init 86400))) = Some analysis0" by blast
  from h1 h2 h3 h4 h5 h6 h7 c1 c2 c3 show ?thesis by blast
qed

theorem C8_durable_hit_best_effort_witness:
  "fst (hot_phase py_json both_fail 90000 (hash_url demo_digest url1) (dc_hot cache1)) = None
   \<and> \<not> cold_select_raises both_fail
   \<and> map_of (dc_cold cache1) (hash_url demo_digest url1) = Some row1
   \<and> loads py_json (row_analysis row1) = Some analysis0
   \<and> hot_setex_raises both_fail \<and> cold_update_raises both_fail
   \<and> fst (DualCacheManager_get demo_digest py_json both_fail 90000 90001 90002 url1 cache1)
       = Some analysis0
   \<and> dc_cold (snd (DualCacheManager_get demo_digest py_json both_fail 90000 90001 90002 url1 cache1))
       = dc_cold cache1
   \<and> fst (DualCacheManager_get demo_digest py_json no_faults 90000 90001 90002 url1 cache1)
       = Some analysis0
   \<and> map_of (dc_cold (snd (DualCacheManager_get demo_digest py_json no_faults 90000 90001 90002
         url1 cache1))) (hash_url demo_digest url1)
       = Some (row1\<lparr> row_access_count := row_access_count row1 + 1, row_updated_at := 90002 \<rparr>)"
proof -
  have h1: "fst (hot_phase py_json both_fail 90000 (hash_url demo_digest url1) (dc_hot cache1)) = None"
    by code_simp
  have h1': "fst (hot_phase py_json no_faults 90000 (hash_url demo_digest url1) (dc_hot cache1)) = None"
    by code_simp
  have h2: "\<not> cold_select_raises both_fail" and h2': "\<not> cold_select_raises no_faults"
    and h5: "hot_setex_raises both_fail" and h6: "cold_update_raises both_fail"
    and h7: "\<not> cold_update_raises no_faults"
    by (simp_all add: both_fail_def no_faults_def)
  have h3: "map_of (dc_cold cache1) (hash_url demo_digest url1) = Some row1" by code_simp
  have h4: "loads py_json (row_analysis row1) = Some analysis0" by code_simp
  note a = C8_durable_hit_best_effort [OF h1 h2 h3 h4, of 90001 90002]
  note b = C8_durable_hit_best_effort [OF h1' h2' h3 h4, of 90001 90002]
  from a b h1 h2 h3 h4 h5 h6 h7 show ?thesis by blast
qed

section \<open>Properties of the orchestrator\<close>

lemma can_use_groq_gemini_history:
  "gemini_history (snd (can_use_groq t rl)) = gemini_history rl"
  "gemini_limit_rpm (snd (can_use_groq t rl)) = gemini_limit_rpm rl"
  "window_seconds (snd (can_use_groq t rl)) = window_seconds rl"
  by (simp_all add: can_use_groq_def Let_def)

lemma deque_append_room: "length h < m \<Longrightarrow> deque_append m x h = h @ [x]"
  by (simp add: deque_append_def)

lemma invoke_groq_remote_raises: "groq_call w = Inl e \<Longrightarrow> invoke_groq ld w = Inl e"
  by (simp add: invoke_groq_def)

lemma parse_raises: "ld text = Raised e \<Longrightarrow> parse_json_response ld text = Inl e"
  by (simp add: parse_json_response_def)

lemma invoke_groq_parser_raises:
  "groq_call w = Inr raw \<Longrightarrow> ld raw = Raised e \<Longrightarrow> invoke_groq ld w = Inl e"
  by (simp add: invoke_groq_def parse_raises)

lemma invoke_gemini_cases:
  "invoke_gemini ld w = Inr v \<Longrightarrow>
     (case gemini_call w of Inl x \<Rightarrow> False | Inr raw \<Rightarrow> parse_json_response ld raw = Inr v)"
  by (simp add: invoke_gemini_def split: sum.splits)

text \<open>
  C4: when Groq is configured, under its token ceiling and admitted, and its invocation
  raises (the remote call, or the cascade on its response), and Gemini is configured and
  admitted and its invocation returns, \<open>analyze\<close> returns what the cascade made of the
  response of Gemini; each provider's usage is recorded once, before its call; each window
  is its cleaned history with that one timestamp appended (written with the bounded append,
  and as a plain append when the limit does not exceed the capacity of the deque).
\<close>

theorem C4_fallback_to_gemini:
  assumes "groq_client_present orch" and "tokens < groq_max_tokens orch"
      and "fst (can_use_groq (t_can_groq w) rl)" and "invoke_groq ld w = Inl e"
      and "gemini_configured orch" and "fst (can_use_gemini (t_can_gemini w) rl)"
      and "invoke_gemini ld w = Inr v"
  shows "analyze ld orch w tokens rl =
      (Inr v,
       rl\<lparr> groq_history := deque_append groq_maxlen (t_record_groq w)
               (clean_history (t_can_groq w) (window_seconds rl) (groq_history rl)),
            gemini_history := deque_append gemini_maxlen (t_record_gemini w)
               (clean_history (t_can_gemini w) (window_seconds rl) (gemini_history rl)) \<rparr>,
       [RecordedGroq (t_record_groq w), CalledGroq,
        RecordedGemini (t_record_gemini w), CalledGemini])
    \<and> (case gemini_call w of Inl x \<Rightarrow> False | Inr raw \<Rightarrow> parse_json_response ld raw = Inr v)
    \<and> (groq_limit_rpm rl \<le> int groq_maxlen \<longrightarrow>
          groq_history (fst (snd (analyze ld orch w tokens rl))) =
            clean_history (t_can_groq w) (window_seconds rl) (groq_history rl) @ [t_record_groq w])
    \<and> (gemini_limit_rpm rl \<le> int gemini_maxlen \<longrightarrow>
          gemini_history (fst (snd (analyze ld orch w tokens rl))) =
            clean_history (t_can_gemini w) (window_seconds rl) (gemini_history rl)
              @ [t_record_gemini w])"
proof -
  let ?hg = "clean_history (t_can_groq w) (window_seconds rl) (groq_history rl)"
  let ?hm = "clean_history (t_can_gemini w) (window_seconds rl) (gemini_history rl)"
  obtain rl1 where c1: "can_use_groq (t_can_groq w) rl = (True, rl1)"
    using assms(3) by (cases "can_use_groq (t_can_groq w) rl") auto
  have rl1: "rl1 = rl\<lparr> groq_history := ?hg \<rparr>"
    using c1 by (simp add: can_use_groq_def Let_def)
  have g: "groq_step ld orch w tokens rl =
      (None, record_groq_usage (t_record_groq w) rl1, [RecordedGroq (t_record_groq w), CalledGroq])"
    using assms(1,2,4) by (simp add: groq_step_def c1 Let_def)
  let ?rl2 = "record_groq_usage (t_record_groq w) rl1"
  have "fst (can_use_gemini (t_can_gemini w) ?rl2)"
    using assms(6) by (simp add: can_use_gemini_def rl1 record_groq_usage_def Let_def)
  then obtain rl3 where c3: "can_use_gemini (t_can_gemini w) ?rl2 = (True, rl3)"
    by (cases "can_use_gemini (t_can_gemini w) ?rl2") auto
  have rl3: "rl3 = rl\<lparr> groq_history := deque_append groq_maxlen (t_record_groq w) ?hg,
       gemini_history := ?hm \<rparr>"
    using c3 by (simp add: can_use_gemini_def rl1 record_groq_usage_def Let_def)
  have main: "analyze ld orch w tokens rl =
      (Inr v,
       rl\<lparr> groq_history := deque_append groq_maxlen (t_record_groq w) ?hg,
            gemini_history := deque_append gemini_maxlen (t_record_gemini w) ?hm \<rparr>,
       [RecordedGroq (t_record_groq w), CalledGroq,
        RecordedGemini (t_record_gemini w), CalledGemini])"
    using assms(5,7)
    by (simp add: analyze_def g c3 Let_def) (simp add: rl3 record_gemini_usage_def)
  have lg: "int (length ?hg) < groq_limit_rpm rl"
    using assms(3) by (simp add: can_use_groq_def Let_def)
  have lm: "int (length ?hm) < gemini_limit_rpm rl"
    using assms(6) by (simp add: can_use_gemini_def Let_def)
  have "groq_limit_rpm rl \<le> int groq_maxlen \<longrightarrow> deque_append groq_maxlen (t_record_groq w) ?hg
      = ?hg @ [t_record_groq w]"
    using lg by (auto intro: deque_append_room)
  moreover have "gemini_limit_rpm rl \<le> int gemini_maxlen \<longrightarrow>
      deque_append gemini_maxlen (t_record_gemini w) ?hm = ?hm @ [t_record_gemini w]"
    using lm by (auto intro: deque_append_room)
  ultimately show ?thesis unfolding main using invoke_gemini_cases [OF assms(7)] by simp
qed

text \<open>
  The decoder raises on an integer literal longer than the limit, and the cascade does not
  catch it.
\<close>

lemma takeWhile_replicate_True: "P x \<Longrightarrow> takeWhile P (replicate n x) = replicate n x"
  by (induction n) simp_all

lemma dropWhile_replicate_True: "P x \<Longrightarrow> dropWhile P (replicate n x) = []"
  by (induction n) simp_all

lemma scan_number_long:
  assumes "int_max_str_digits < n"
  shows "scan_number (replicate n CHR ''7'') = ScanError (int_limit_error n)"
proof -
  from assms obtain m where n: "n = Suc m" by (cases n) (simp_all add: int_max_str_digits_def)
  have d: "is_digit CHR ''7''" by (simp add: is_digit_def)
  have t: "takeWhile is_digit (replicate n CHR ''7'') = replicate n CHR ''7''"
    "dropWhile is_digit (replicate n CHR ''7'') = []"
    using d by (simp_all add: takeWhile_replicate_True dropWhile_replicate_True)
  have "scan_int_part (replicate n CHR ''7'') = Some (replicate n CHR ''7'', [])"
    using t d unfolding n by (simp add: scan_int_part_def)
  then show ?thesis using assms
    unfolding n by (simp add: scan_number_def scan_frac_def scan_exp_def Let_def)
qed

lemma json_loads_long_int:
  assumes "int_max_str_digits < n"
  shows "json_loads (replicate n CHR ''7'') = Raised (int_limit_error n)"
proof -
  from assms obtain m where n: "n = Suc m" by (cases n) (simp_all add: int_max_str_digits_def)
  have w: "skip_ws (replicate n CHR ''7'') = replicate n CHR ''7''"
    unfolding n by (simp add: skip_ws_def is_json_ws_def)
  have "parse_value (Suc (Suc (2 * length (replicate n CHR ''7'')))) recursion_limit
          (replicate n CHR ''7'') = scan_number (replicate n CHR ''7'')"
    unfolding n by simp
  then show ?thesis using scan_number_long [OF assms] by (simp add: json_loads_def w)
qed

theorem C4_fallback_to_gemini_witness:
  "groq_client_present orch0 \<and> 5000 < groq_max_tokens orch0
   \<and> fst (can_use_groq (t_can_groq world0) (RateLimitManager_init 150 8))
   \<and> invoke_groq json_loads world0 = Inl (OtherException ''timeout'')
   \<and> gemini_configured orch0
   \<and> fst (can_use_gemini (t_can_gemini world0) (RateLimitManager_init 150 8))
   \<and> invoke_gemini json_loads world0 = Inr (JObj [(''consensus'', JStr ''ok'')])
   \<and> analyze json_loads orch0 world0 5000 (RateLimitManager_init 150 8) =
       (Inr (JObj [(''consensus'', JStr ''ok'')]),
        (RateLimitManager_init 150 8)\<lparr> groq_history := [1001], gemini_history := [1003] \<rparr>,
        [RecordedGroq 1001, CalledGroq, RecordedGemini 1003, CalledGemini])
   \<and> invoke_groq json_loads world2 = Inl (int_limit_error 4301)
   \<and> analyze json_loads orch0 world2 5000 (RateLimitManager_init 150 8) =
       (Inr (JObj [(''consensus'', JStr ''ok'')]),
        (RateLimitManager_init 150 8)\<lparr> groq_history := [1001], gemini_history := [1003] \<rparr>,
        [RecordedGroq 1001, CalledGroq, RecordedGemini 1003, CalledGemini])"
proof -
  let ?rl = "RateLimitManager_init 150 8"
  have a: "groq_client_present orch0" and b: "5000 < groq_max_tokens orch0"
    and e: "gemini_configured orch0"
    by (simp_all add: orch0_def)
  have c: "fst (can_use_groq (t_can_groq world0) ?rl)"
    by (simp add: can_use_groq_def RateLimitManager_init_def clean_history_def Let_def)
  have d: "invoke_groq json_loads world0 = Inl (OtherException ''timeout'')"
    by (simp add: invoke_groq_def world0_def)
  have f: "fst (can_use_gemini (t_can_gemini world0) ?rl)"
    by (simp add: can_use_gemini_def RateLimitManager_init_def clean_history_def Let_def)
  have p: \<open>parse_json_response json_loads (fenced ''{"consensus": "ok",}'')
      = Inr (JObj [(''consensus'', JStr ''ok'')])\<close>
    by code_simp
  have g: "invoke_gemini json_loads world0 = Inr (JObj [(''consensus'', JStr ''ok'')])"
    by (simp add: invoke_gemini_def world0_def p)
  have h: "deque_append groq_maxlen 1001
             (clean_history (t_can_groq world0) (window_seconds ?rl) (groq_history ?rl)) = [1001]"
    "deque_append gemini_maxlen 1003
             (clean_history (t_can_gemini world0) (window_seconds ?rl) (gemini_history ?rl)) = [1003]"
    by (simp_all add: deque_append_def clean_history_def RateLimitManager_init_def world0_def
        groq_maxlen_def gemini_maxlen_def)
  have t: "t_record_groq world0 = 1001" "t_record_gemini world0 = 1003"
    by (simp_all add: world0_def)
  from C4_fallback_to_gemini [OF a b c d e f g]
  have r0: "analyze json_loads orch0 world0 5000 ?rl =
       (Inr (JObj [(''consensus'', JStr ''ok'')]),
        ?rl\<lparr> groq_history := [1001], gemini_history := [1003] \<rparr>,
        [RecordedGroq 1001, CalledGroq, RecordedGemini 1003, CalledGemini])"
    by (simp only: h t)
  have c2: "fst (can_use_groq (t_can_groq world2) ?rl)"
    by (simp add: can_use_groq_def RateLimitManager_init_def clean_history_def Let_def)
  have l: "json_loads (replicate 4301 CHR ''7'') = Raised (int_limit_error 4301)"
    by (rule json_loads_long_int) (simp add: int_max_str_digits_def)
  have d2: "invoke_groq json_loads world2 = Inl (int_limit_error 4301)"
    by (simp add: invoke_groq_def world2_def parse_json_response_def l)
  have f2: "fst (can_use_gemini (t_can_gemini world2) ?rl)"
    by (simp add: can_use_gemini_def RateLimitManager_init_def clean_history_def Let_def)
  have g2: "invoke_gemini json_loads world2 = Inr (JObj [(''consensus'', JStr ''ok'')])"
    by (simp add: invoke_gemini_def world2_def p)
  have h2: "deque_append groq_maxlen 1001
             (clean_history (t_can_groq world2) (window_seconds ?rl) (groq_history ?rl)) = [1001]"
    "deque_append gemini_maxlen 1003
             (clean_history (t_can_gemini world2) (window_seconds ?rl) (gemini_history ?rl)) = [1003]"
    by (simp_all add: deque_append_def clean_history_def RateLimitManager_init_def world2_def
        groq_maxlen_def gemini_maxlen_def)
  have t2: "t_record_groq world2 = 1001" "t_record_gemini world2 = 1003"
    by (simp_all add: world2_def)
  from C4_fallback_to_gemini [OF a b c2 d2 e f2 g2]
  have r2: "analyze json_loads orch0 world2 5000 ?rl =
       (Inr (JObj [(''consensus'', JStr ''ok'')]),
        ?rl\<lparr> groq_history := [1001], gemini_history := [1003] \<rparr>,
        [RecordedGroq 1001, CalledGroq, RecordedGemini 1003, CalledGemini])"
    by (simp only: h2 t2)
  from a b c d e f g r0 d2 r2 show ?thesis by blast
qed

lemma parse_all_fail:
  "ld text = JSONDecodeError \<Longrightarrow> attempt ld (code_block_match text) = JSONDecodeError \<Longrightarrow>
   attempt ld (brace_match text) = JSONDecodeError \<Longrightarrow> ld (cleaned_text text) = JSONDecodeError \<Longrightarrow>
   attempt ld (map_option fix_json_issues (nested_match text)) = JSONDecodeError \<Longrightarrow>
   parse_json_response ld text = Inr (create_fallback_response text)"
  by (simp add: parse_json_response_def)

lemma fallback_fields:
  "json_get (create_fallback_response text) ''summary_post'' =
      Some (JStr (if text = [] then ''Error al procesar respuesta del LLM'' else take 400 text))"
  "json_get (create_fallback_response text) ''summary_comments'' = Some (JStr (take 600 (drop 400 text)))"
  "json_get (create_fallback_response text) ''sentiment_post'' = Some neutral_sentiment"
  "json_get (create_fallback_response text) ''sentiment_comments'' = Some neutral_sentiment"
  "json_get (create_fallback_response text) ''consensus'' =
      Some (JStr ''No disponible debido a error de procesamiento'')"
  "json_get (create_fallback_response text) ''key_controversies'' = Some (JArr [])"
  "json_get (create_fallback_response text) ''useful_links'' = Some (JArr [])"
  by (simp_all add: create_fallback_response_def json_get_def)

lemma fallback_keys:
  "\<exists>kvs. create_fallback_response text = JObj kvs
     \<and> map fst kvs = [''summary_post'', ''summary_comments'', ''sentiment_post'',
          ''sentiment_comments'', ''consensus'', ''key_controversies'', ''useful_links'']"
  by (simp add: create_fallback_response_def)

lemma analyze_returns_groq_result:
  "CalledGroq \<in> set (snd (snd (analyze ld orch w tokens rl))) \<Longrightarrow> groq_call w = Inr raw \<Longrightarrow>
   parse_json_response ld raw = Inr v \<Longrightarrow> fst (analyze ld orch w tokens rl) = Inr v"
  by (auto simp: analyze_def groq_step_def invoke_groq_def invoke_gemini_def Let_def
      split: prod.splits if_splits sum.splits bool.splits)

lemma analyze_returns_gemini_result:
  "CalledGemini \<in> set (snd (snd (analyze ld orch w tokens rl))) \<Longrightarrow> gemini_call w = Inr raw \<Longrightarrow>
   parse_json_response ld raw = Inr v \<Longrightarrow> fst (analyze ld orch w tokens rl) = Inr v"
  by (auto simp: analyze_def groq_step_def invoke_groq_def invoke_gemini_def Let_def
      split: prod.splits if_splits sum.splits bool.splits)

lemma analyze_error_needs_failed_invocation:
  "fst (analyze ld orch w tokens rl) = Inl err \<Longrightarrow>
     (CalledGroq \<in> set (snd (snd (analyze ld orch w tokens rl))) \<longrightarrow> isl (invoke_groq ld w))
   \<and> (CalledGemini \<in> set (snd (snd (analyze ld orch w tokens rl))) \<longrightarrow> isl (invoke_gemini ld w))"
  by (auto simp: analyze_def groq_step_def Let_def
      split: prod.splits if_splits sum.splits bool.splits)

text \<open>
  C5 (amended): when every strategy of the cascade ends in a \<open>JSONDecodeError\<close> or finds
  no match, the cascade returns the fallback structure, a dictionary of seven keys. Its
  post summary is the first 400 characters of the text, or a fixed message when the text
  is empty; its comment summary is the characters from 400 to 1000; both sentiments are
  neutral with score 0.5 and the parse-error note; the consensus is marked unavailable and
  both lists are empty. Whenever a provider was called and answered with a text on which
  the cascade returns a result, \<open>analyze\<close> returns that result.
\<close>

theorem C5_fallback_structure:
  "(ld text = JSONDecodeError \<and> attempt ld (code_block_match text) = JSONDecodeError
      \<and> attempt ld (brace_match text) = JSONDecodeError \<and> ld (cleaned_text text) = JSONDecodeError
      \<and> attempt ld (map_option fix_json_issues (nested_match text)) = JSONDecodeError
    \<longrightarrow> parse_json_response ld text = Inr (create_fallback_response text))
   \<and> (\<exists>kvs. create_fallback_response text = JObj kvs
         \<and> map fst kvs = [''summary_post'', ''summary_comments'', ''sentiment_post'',
              ''sentiment_comments'', ''consensus'', ''key_controversies'', ''useful_links''])
   \<and> json_get (create_fallback_response text) ''summary_post'' =
        Some (JStr (if text = [] then ''Error al procesar respuesta del LLM'' else take 400 text))
   \<and> json_get (create_fallback_response text) ''summary_comments'' =
        Some (JStr (take 600 (drop 400 text)))
   \<and> json_get (create_fallback_response text) ''sentiment_post'' =
        Some (JObj [(''label'', JStr ''Neutro''), (''score'', JFloat (1 / 2)),
                    (''details'', JStr parse_error_note)])
   \<and> json_get (create_fallback_response text) ''sentiment_comments'' =
        Some (JObj [(''label'', JStr ''Neutro''), (''score'', JFloat (1 / 2)),
                    (''details'', JStr parse_error_note)])
   \<and> json_get (create_fallback_response text) ''consensus'' =
        Some (JStr ''No disponible debido a error de procesamiento'')
   \<and> json_get (create_fallback_response text) ''key_controversies'' = Some (JArr [])
   \<and> json_get (create_fallback_response text) ''useful_links'' = Some (JArr [])
   \<and> (CalledGroq \<in> set (snd (snd (analyze ld orch w tokens rl))) \<and> groq_call w = Inr raw
        \<and> parse_json_response ld raw = Inr v
        \<longrightarrow> fst (analyze ld orch w tokens rl) = Inr v)
   \<and> (CalledGemini \<in> set (snd (snd (analyze ld orch w tokens rl))) \<and> gemini_call w = Inr raw
        \<and> parse_json_response ld raw = Inr v
        \<longrightarrow> fst (analyze ld orch w tokens rl) = Inr v)"
  using analyze_returns_groq_result [of ld orch w tokens rl raw v]
    analyze_returns_gemini_result [of ld orch w tokens rl raw v]
    parse_all_fail [of ld "text"] fallback_fields [of "text"] fallback_keys [of "text"]
  by (simp add: neutral_sentiment_def)

text \<open>
  C5 (as stated) fails on the empty response: every strategy fails, and the post summary
  is the fixed message, not the (empty) prefix of the text.
\<close>

theorem C5_empty_text_counterexample:
  "parse_json_response json_loads [] = Inr (create_fallback_response [])
   \<and> json_get (create_fallback_response []) ''summary_post'' =
       Some (JStr ''Error al procesar respuesta del LLM'')
   \<and> JStr ''Error al procesar respuesta del LLM'' \<noteq> JStr (take 400 [])"
  by code_simp

theorem C5_fallback_structure_witness:
  "json_loads ''no json here'' = JSONDecodeError
   \<and> attempt json_loads (code_block_match ''no json here'') = JSONDecodeError
   \<and> attempt json_loads (brace_match ''no json here'') = JSONDecodeError
   \<and> json_loads (cleaned_text ''no json here'') = JSONDecodeError
   \<and> attempt json_loads (map_option fix_json_issues (nested_match ''no json here'')) = JSONDecodeError
   \<and> parse_json_response json_loads ''no json here'' = Inr (create_fallback_response ''no json here'')
   \<and> json_get (create_fallback_response ''no json here'') ''summary_post'' =
        Some (JStr ''no json here'')
   \<and> CalledGroq \<in> set (snd (snd (analyze json_loads orch0 world1 5000 (RateLimitManager_init 150 8))))
   \<and> groq_call world1 = Inr ''no json here''
   \<and> fst (analyze json_loads orch0 world1 5000 (RateLimitManager_init 150 8)) =
        Inr (create_fallback_response ''no json here'')"
proof -
  have a: "json_loads ''no json here'' = JSONDecodeError" by code_simp
  have b: "attempt json_loads (code_block_match ''no json here'') = JSONDecodeError" by code_simp
  have c: "attempt json_loads (brace_match ''no json here'') = JSONDecodeError" by code_simp
  have d: "json_loads (cleaned_text ''no json here'') = JSONDecodeError" by code_simp
  have e: "attempt json_loads (map_option fix_json_issues (nested_match ''no json here''))
      = JSONDecodeError"
    by code_simp
  have pq: "parse_json_response json_loads ''no json here''
      = Inr (create_fallback_response ''no json here'')"
    using a b c d e by (rule parse_all_fail)
  have ig: "invoke_groq json_loads world1 = Inr (create_fallback_response ''no json here'')"
    by (simp add: invoke_groq_def world1_def pq)
  have f: "CalledGroq \<in> set (snd (snd (analyze json_loads orch0 world1 5000 (RateLimitManager_init 150 8))))"
    by (simp add: analyze_def groq_step_def ig orch0_def can_use_groq_def
        RateLimitManager_init_def clean_history_def Let_def)
  have g: "groq_call world1 = Inr ''no json here''" by (simp add: world1_def)
  note t = C5_fallback_structure [of json_loads "''no json here''" orch0 world1 5000
      "RateLimitManager_init 150 8" "''no json here''" "create_fallback_response ''no json here''"]
  from t a b c d e have p: "parse_json_response json_loads ''no json here''
      = Inr (create_fallback_response ''no json here'')" by blast
  from t have s: "json_get (create_fallback_response ''no json here'') ''summary_post'' =
        Some (JStr ''no json here'')" by simp
  from t f g p have r: "fst (analyze json_loads orch0 world1 5000 (RateLimitManager_init 150 8)) =
        Inr (create_fallback_response ''no json here'')" by blast
  from a b c d e p s f g r show ?thesis by blast
qed

text \<open>
  Outside the amended statement: an exception of the decoder other than
  \<open>JSONDecodeError\<close> leaves the cascade, and a decoded value that is not a dictionary is
  returned as it is.
\<close>

lemma cascade_raises_on_long_integer:
  "parse_json_response json_loads (replicate 4301 CHR ''7'') = Inl (int_limit_error 4301)"
proof -
  have "json_loads (replicate 4301 CHR ''7'') = Raised (int_limit_error 4301)"
    by (rule json_loads_long_int) (simp add: int_max_str_digits_def)
  then show ?thesis by (rule parse_raises)
qed

lemma cascade_returns_decoded_value_as_is:
  "parse_json_response json_loads ''5'' = Inr (JInt 5)
   \<and> parse_json_response json_loads ''NaN'' = Inr (JNonFinite NaN)"
  by code_simp

subsection \<open>A fenced object with a trailing comma\<close>

lemma strip_fence_other: "c \<noteq> CHR 0x60 \<Longrightarrow> strip_prefix fence (c # s) = None"
  by (auto simp: strip_prefix_def fence_def)

lemma no_fence_after_ws:
  "CHR 0x60 \<notin> set b \<Longrightarrow> strip_prefix fence (dropWhile py_isspace (b @ CHR ''}'' # rest)) = None"
proof (induction b)
  case Nil
  have "\<not> py_isspace CHR ''}''" by (simp add: py_isspace_def)
  then show ?case by (simp add: strip_fence_other)
next
  case (Cons c b)
  from Cons.prems have c: "c \<noteq> CHR 0x60" and nb: "CHR 0x60 \<notin> set b" by auto
  show ?case
  proof (cases "py_isspace c")
    case True
    then show ?thesis using Cons.IH [OF nb] by simp
  next
    case False
    then show ?thesis using strip_fence_other [OF c] by simp
  qed
qed

lemma lazy_group_body:
  "CHR 0x60 \<notin> set b \<Longrightarrow>
   lazy_group acc (b @ CHR ''}'' # CHR 0x0A # fence) = Some (rev acc @ b @ ''}'')"
proof (induction b arbitrary: acc)
  case Nil
  have "py_isspace (CHR 0x0A)" and "\<not> py_isspace (CHR 0x60)" by (simp_all add: py_isspace_def)
  then have "dropWhile py_isspace (CHR 0x0A # fence) = fence" by (simp add: fence_def)
  moreover have "strip_prefix fence fence = Some []" by (simp add: strip_prefix_def)
  ultimately show ?case by simp
next
  case (Cons c b)
  then have nb: "CHR 0x60 \<notin> set b" by simp
  have "strip_prefix fence (dropWhile py_isspace (b @ CHR ''}'' # CHR 0x0A # fence)) = None"
    using nb by (rule no_fence_after_ws)
  then show ?case using Cons.IH [OF nb, of "c # acc"] by simp
qed

lemma code_block_fenced:
  assumes "CHR 0x60 \<notin> set b"
  shows "code_block_match (fenced (CHR ''{'' # b @ ''}'')) = Some (CHR ''{'' # b @ ''}'')"
proof -
  have sp: "\<not> py_isspace CHR ''{''" "py_isspace (CHR 0x0A)" by (simp_all add: py_isspace_def)
  have f: "fenced (CHR ''{'' # b @ ''}'')
      = CHR 0x60 # CHR 0x60 # CHR 0x60 # ''json'' @ CHR 0x0A # CHR ''{'' # b @ CHR ''}'' # CHR 0x0A # fence"
    by (simp add: fenced_def fence_def)
  have "code_block_at (fenced (CHR ''{'' # b @ ''}'')) =
      lazy_group [CHR ''{''] (b @ CHR ''}'' # CHR 0x0A # fence)"
    unfolding f using sp
    by (simp add: code_block_at_def strip_prefix_def opt_prefix_def fence_def)
  then have "code_block_at (fenced (CHR ''{'' # b @ ''}'')) = Some (CHR ''{'' # b @ ''}'')"
    using lazy_group_body [OF assms, of "[CHR ''{'']"] by simp
  then show ?thesis
    unfolding code_block_match_def f by simp
qed

lemma nested_fenced:
  "nested_match (fenced (CHR ''{'' # b @ ''}'')) = Some (CHR ''{'' # b @ ''}'')"
  by (simp add: nested_match_def fenced_def fence_def py_rstrip_def Let_def)

lemma object_shape:
  assumes "post = [] \<or> last post = CHR ''}''" and "CHR 0x60 \<notin> set (p @ mid @ post)"
  shows "\<exists>b. CHR ''{'' # p @ mid @ CHR ''}'' # post = CHR ''{'' # b @ ''}'' \<and> CHR 0x60 \<notin> set b"
proof -
  define t where "t = p @ mid @ CHR ''}'' # post"
  have ne: "t \<noteq> []" by (simp add: t_def)
  have "last t = CHR ''}''" using assms(1) by (auto simp: t_def)
  then have "t = butlast t @ ''}''" using ne append_butlast_last_id [of t] by simp
  moreover have "CHR 0x60 \<notin> set t" using assms(2) by (simp add: t_def)
  then have "CHR 0x60 \<notin> set (butlast t)" by (auto dest: in_set_butlastD)
  ultimately show ?thesis unfolding t_def by blast
qed

text \<open>
  The repair scans a text part by part: what stands before a comma is repaired on its own,
  and a comma that is followed by whitespace and a closing brace is dropped.
\<close>

lemma fix_json_issues_comma:
  "fix_json_issues (CHR '','' # cs) =
     (case dropWhile py_isspace cs of
        [] \<Rightarrow> CHR '','' # fix_json_issues cs
      | d # r \<Rightarrow> if d = CHR ''}'' \<or> d = CHR '']'' then d # fix_json_issues r
                 else CHR '','' # fix_json_issues cs)"
  by simp

lemma fix_json_issues_before_comma:
  "fix_json_issues (pre @ CHR '','' # s) = fix_json_issues pre @ fix_json_issues (CHR '','' # s)"
proof (induction "length pre" arbitrary: pre rule: less_induct)
  case less
  show ?case
  proof (cases pre)
    case Nil
    then show ?thesis by simp
  next
    case (Cons c cs)
    note pre = Cons
    have ih: "fix_json_issues (cs @ CHR '','' # s) = fix_json_issues cs @ fix_json_issues (CHR '','' # s)"
      using less [of cs] pre by simp
    show ?thesis
    proof (cases "c = CHR '',''")
      case False
      then show ?thesis using pre ih by simp
    next
      case True
      have nsp: "\<not> py_isspace CHR '',''" by (simp add: py_isspace_def)
      show ?thesis
      proof (cases "dropWhile py_isspace cs")
        case Nil
        note dn = Nil
        then have "\<forall>x\<in>set cs. py_isspace x" by (simp add: dropWhile_eq_Nil_conv)
        then have dw: "dropWhile py_isspace (cs @ CHR '','' # s) = CHR '','' # s"
          using nsp by (simp add: dropWhile_append)
        have "fix_json_issues (CHR '','' # cs @ CHR '','' # s)
            = CHR '','' # fix_json_issues (cs @ CHR '','' # s)"
          by (simp only: fix_json_issues_comma dw list.case) simp
        moreover have "fix_json_issues (CHR '','' # cs) = CHR '','' # fix_json_issues cs"
          by (simp only: fix_json_issues_comma dn list.case)
        ultimately show ?thesis unfolding pre True append_Cons ih by simp
      next
        case (Cons d r)
        note dc = Cons
        then have ex: "\<not> (\<forall>x\<in>set cs. py_isspace x)"
          by (metis dropWhile_eq_Nil_conv list.distinct(1))
        then have dw: "dropWhile py_isspace (cs @ CHR '','' # s) = d # r @ CHR '','' # s"
          using dc by (auto simp: dropWhile_append)
        have "length r < length pre"
          using length_dropWhile_le [of py_isspace cs] dc pre by simp
        then have ihr: "fix_json_issues (r @ CHR '','' # s)
            = fix_json_issues r @ fix_json_issues (CHR '','' # s)"
          by (rule less)
        have a: "fix_json_issues (CHR '','' # cs @ CHR '','' # s)
            = (if d = CHR ''}'' \<or> d = CHR '']'' then d # fix_json_issues (r @ CHR '','' # s)
               else CHR '','' # fix_json_issues (cs @ CHR '','' # s))"
          by (simp only: fix_json_issues_comma dw list.case)
        have b: "fix_json_issues (CHR '','' # cs)
            = (if d = CHR ''}'' \<or> d = CHR '']'' then d # fix_json_issues r
               else CHR '','' # fix_json_issues cs)"
          by (simp only: fix_json_issues_comma dc list.case)
        show ?thesis unfolding pre True append_Cons a b ih ihr by simp
      qed
    qed
  qed
qed

lemma fix_json_issues_trailing_comma:
  assumes "list_all py_isspace ws"
  shows "fix_json_issues (CHR '','' # ws @ CHR ''}'' # post) = CHR ''}'' # fix_json_issues post"
proof -
  have "\<not> py_isspace CHR ''}''" by (simp add: py_isspace_def)
  then have "dropWhile py_isspace (ws @ CHR ''}'' # post) = CHR ''}'' # post"
    using assms by (simp add: dropWhile_append list_all_iff)
  then show ?thesis by (simp only: fix_json_issues_comma list.case) simp
qed

lemma fix_json_issues_inserted_comma:
  assumes "list_all py_isspace ws" and "fix_json_issues pre = pre" and "fix_json_issues post = post"
  shows "fix_json_issues (pre @ CHR '','' # ws @ CHR ''}'' # post) = pre @ CHR ''}'' # post"
  using assms fix_json_issues_before_comma [of pre "ws @ CHR ''}'' # post"]
    fix_json_issues_trailing_comma [of ws post] by simp

text \<open>
  A fenced response, also after cleaning, starts with a backquote, and no JSON text does.
\<close>

lemma cleaned_fenced: "\<exists>s. cleaned_text (fenced x) = CHR 0x60 # s"
proof -
  define t where "t = filter (\<lambda>c. \<not> is_control c) (fenced x)"
  have t: "t = CHR 0x60 # (CHR 0x60 # CHR 0x60 # ''json'' @ filter (\<lambda>c. \<not> is_control c) x
      @ [CHR 0x60, CHR 0x60]) @ [CHR 0x60]"
    by (simp add: t_def fenced_def fence_def is_control_def)
  have "\<not> py_isspace (CHR 0x60)" by (simp add: py_isspace_def)
  then have "\<not> py_isspace (hd t) \<and> \<not> py_isspace (last t)"
    unfolding t by (simp only: list.sel last_snoc last.simps snoc_eq_iff_butlast) simp
  then have "py_strip t = t" by (simp add: strip_self)
  then show ?thesis unfolding cleaned_text_def t_def [symmetric] using t by simp
qed

lemma fenced_backquote: "\<exists>s. fenced x = CHR 0x60 # s"
  by (simp add: fenced_def fence_def)

lemma json_loads_backquote: "json_loads (CHR 0x60 # s) = JSONDecodeError"
proof -
  have w: "skip_ws (CHR 0x60 # s) = CHR 0x60 # s" by (simp add: skip_ws_def is_json_ws_def)
  have n: "scan_number (CHR 0x60 # s) = NoMatch"
    by (simp add: scan_number_def scan_int_part_def is_digit_def Let_def)
  have "parse_value (Suc (Suc (2 * length (CHR 0x60 # s)))) recursion_limit (CHR 0x60 # s) = NoMatch"
    using n by simp
  then show ?thesis by (simp add: json_loads_def w)
qed

text \<open>
  C6 (amended): let \<open>j\<close> be an object text without backquotes, and \<open>jc\<close> the text \<open>j\<close> with
  a comma (and optional whitespace) inserted before one of its closing braces, such that
  the repair changes neither the part of \<open>j\<close> before that brace nor the part after it. Let
  the decoder reject every text that starts with a backquote, reject \<open>jc\<close> and decode \<open>j\<close>
  to \<open>v\<close>. If the balanced-brace strategy extracts no region of the fenced \<open>jc\<close> that
  decodes, then the cascade returns \<open>v\<close> on the fenced \<open>jc\<close>, on the fenced \<open>j\<close> and on
  \<open>j\<close> itself.
\<close>

theorem C6_trailing_comma_repaired:
  assumes "j = CHR ''{'' # p @ CHR ''}'' # post"
      and "jc = CHR ''{'' # p @ CHR '','' # ws @ CHR ''}'' # post"
      and "post = [] \<or> last post = CHR ''}''"
      and "list_all py_isspace ws"
      and "CHR 0x60 \<notin> set j"
      and "fix_json_issues p = p" and "fix_json_issues post = post"
      and "\<And>s. ld (CHR 0x60 # s) = JSONDecodeError"
      and "ld jc = JSONDecodeError" and "ld j = Decoded v"
      and "attempt ld (brace_match (fenced jc)) = JSONDecodeError"
  shows "parse_json_response ld (fenced jc) = Inr v \<and> parse_json_response ld (fenced j) = Inr v
       \<and> parse_json_response ld j = Inr v"
proof -
  have nsp: "CHR 0x60 \<notin> set ws"
    using assms(4) by (auto simp: list_all_iff py_isspace_def)
  have nq: "CHR 0x60 \<notin> set (p @ [] @ post)" using assms(1,5) by auto
  have nqc: "CHR 0x60 \<notin> set (p @ (CHR '','' # ws) @ post)" using assms(1,5) nsp by auto
  obtain b where b: "j = CHR ''{'' # b @ ''}''" "CHR 0x60 \<notin> set b"
    using object_shape [OF assms(3) nq] assms(1) by auto
  obtain bc where bc: "jc = CHR ''{'' # bc @ ''}''" "CHR 0x60 \<notin> set bc"
    using object_shape [OF assms(3) nqc] assms(2) by auto
  have cb: "code_block_match (fenced jc) = Some jc"
    unfolding bc(1) using bc(2) by (rule code_block_fenced)
  have cb': "code_block_match (fenced j) = Some j"
    unfolding b(1) using b(2) by (rule code_block_fenced)
  have ne: "nested_match (fenced jc) = Some jc"
    unfolding bc(1) by (rule nested_fenced)
  have "fix_json_issues (CHR ''{'' # p) = CHR ''{'' # p" using assms(6) by simp
  then have fx: "fix_json_issues jc = j"
    using fix_json_issues_inserted_comma [OF assms(4) _ assms(7), of "CHR ''{'' # p"]
    by (simp add: assms(1,2))
  have l1: "ld (fenced jc) = JSONDecodeError" "ld (fenced j) = JSONDecodeError"
    using fenced_backquote [of jc] fenced_backquote [of j] assms(8) by auto
  have l2: "ld (cleaned_text (fenced jc)) = JSONDecodeError"
    using cleaned_fenced [of jc] assms(8) by auto
  have "parse_json_response ld (fenced jc) = Inr v"
    using assms(9,10,11) by (simp add: parse_json_response_def cb ne attempt_def l1 l2 fx)
  moreover have "parse_json_response ld (fenced j) = Inr v"
    using assms(10) by (simp add: parse_json_response_def cb' attempt_def l1)
  moreover have "parse_json_response ld j = Inr v"
    using assms(10) by (simp add: parse_json_response_def)
  ultimately show ?thesis by simp
qed

text \<open>
  C6 (as stated) fails on an object nested two levels deep with the comma before the
  outermost brace: the balanced-brace strategy extracts the inner object, which decodes,
  and that inner object is returned. It also fails when a string of the object holds a
  comma before a closing brace: the repair rewrites the string.
\<close>

theorem C6_nested_counterexample:
  \<open>parse_json_response json_loads (fenced ''{"a": {"b": {"c": 1}},}'')
     = Inr (JObj [(''b'', JObj [(''c'', JInt 1)])])
   \<and> parse_json_response json_loads (fenced ''{"a": {"b": {"c": 1}}}'')
     = Inr (JObj [(''a'', JObj [(''b'', JObj [(''c'', JInt 1)])])])
   \<and> parse_json_response json_loads ''{"a": {"b": {"c": 1}}}''
     = Inr (JObj [(''a'', JObj [(''b'', JObj [(''c'', JInt 1)])])])
   \<and> parse_json_response json_loads (fenced ''{"k": ",}",}'') = Inr (JObj [(''k'', JStr ''}'')])
   \<and> parse_json_response json_loads (fenced ''{"k": ",}"}'') = Inr (JObj [(''k'', JStr '',}'')])\<close>
  by code_simp

theorem C6_trailing_comma_repaired_witness:
  \<open>list_all py_isspace '' '' \<and> CHR 0x60 \<notin> set ''{"a": {"b": 1}}''
   \<and> fix_json_issues ''"a": {"b": 1}'' = ''"a": {"b": 1}'' \<and> fix_json_issues [] = []
   \<and> json_loads ''{"a": {"b": 1}, }'' = JSONDecodeError
   \<and> json_loads ''{"a": {"b": 1}}'' = Decoded (JObj [(''a'', JObj [(''b'', JInt 1)])])
   \<and> attempt json_loads (brace_match (fenced ''{"a": {"b": 1}, }'')) = JSONDecodeError
   \<and> parse_json_response json_loads (fenced ''{"a": {"b": 1}, }'')
       = Inr (JObj [(''a'', JObj [(''b'', JInt 1)])])
   \<and> parse_json_response json_loads (fenced ''{"a": {"b": 1}}'')
       = Inr (JObj [(''a'', JObj [(''b'', JInt 1)])])
   \<and> parse_json_response json_loads ''{"a": {"b": 1}}''
       = Inr (JObj [(''a'', JObj [(''b'', JInt 1)])])\<close>
proof -
  have s1: \<open>''{"a": {"b": 1}}'' = CHR ''{'' # ''"a": {"b": 1}'' @ CHR ''}'' # []\<close> by simp
  have s2: \<open>''{"a": {"b": 1}, }'' = CHR ''{'' # ''"a": {"b": 1}'' @ CHR '','' # '' '' @ CHR ''}'' # []\<close>
    by simp
  have e: "[] = [] \<or> last [] = CHR ''}''" by simp
  have w: "list_all py_isspace '' ''" by (simp add: py_isspace_def)
  have n: \<open>CHR 0x60 \<notin> set ''{"a": {"b": 1}}''\<close> by simp
  have f1: \<open>fix_json_issues ''"a": {"b": 1}'' = ''"a": {"b": 1}''\<close> by code_simp
  have f2: "fix_json_issues [] = []" by simp
  have l2: \<open>json_loads ''{"a": {"b": 1}, }'' = JSONDecodeError\<close> by code_simp
  have l3: \<open>attempt json_loads (brace_match (fenced ''{"a": {"b": 1}, }'')) = JSONDecodeError\<close>
    by code_simp
  have l6: \<open>json_loads ''{"a": {"b": 1}}'' = Decoded (JObj [(''a'', JObj [(''b'', JInt 1)])])\<close>
    by code_simp
  from C6_trailing_comma_repaired [OF s1 s2 e w n f1 f2 json_loads_backquote l2 l6 l3]
    w n f1 f2 l2 l6 l3
  show ?thesis by blast
qed

section \<open>Properties of the pipeline\<close>

text \<open>What a poller reads after a submission and after an update.\<close>

lemma get_after_add: "JobStore_get (JobStore_add t_sweep t_add jid st s) jid = Some st"
  by (simp add: JobStore_get_def JobStore_add_def Let_def update_conv')

lemma get_after_update:
  "JobStore_get s jid \<noteq> None \<Longrightarrow> JobStore_get (snd (JobStore_update jid st s)) jid = Some st"
  by (simp add: JobStore_get_def JobStore_update_def update_conv')

text \<open>
  The records a run passes to \<open>update\<close>, started on a record without result and error.
\<close>

lemma pipeline_records:
  assumes "result job = None" and "error job = None" and "progress job \<le> 10"
  shows "list_all (\<lambda>j. (result j \<noteq> None) = (status j = Completed)
                      \<and> (error j \<noteq> None) = (status j = Failed))
           (extract_stage w u deep lite job)"
    and "sorted (progress job # map progress (extract_stage w u deep lite job))"
    and "list_all (\<lambda>j. status j = Processing) (butlast (extract_stage w u deep lite job))"
    and "list_all (\<lambda>j. 10 \<le> progress j \<and> progress j \<le> 100) (extract_stage w u deep lite job)"
  using assms
  by (auto simp: extract_stage_def analyze_stage_def enrich_stage_def build_stage_def
      save_stage_def fail_job_def Let_def split: outcome.splits sum.splits)

text \<open>The two descriptors a submission answers with.\<close>

lemma submitted_descriptor:
  assumes "submit_analysis request cached u utcnow t_sweep t_add store = Inr (descr, store', Some jid)"
  shows "descr = \<lparr> job_id = jid, status = Queued, progress = 0, result = None, error = None,
                   created_at = utcnow \<rparr>"
    and "store' = JobStore_add t_sweep t_add jid descr store"
  using assms by (auto simp: submit_analysis_def Let_def split: if_splits)

lemma cache_hit_descriptor:
  assumes "submit_analysis request cached u utcnow t_sweep t_add store = Inr (descr, store', None)"
  shows "status descr = Completed \<and> progress descr = 100 \<and> result descr \<noteq> None
       \<and> error descr = None \<and> store' = store"
  using assms by (auto simp: submit_analysis_def Let_def split: if_splits option.splits)

text \<open>
  C9: a submission that misses the cache stores a queued descriptor and creates the task of
  the pipeline; when the task starts, the store holds that descriptor under the id, or
  nothing. Whatever the awaited calls of the pipeline do (return, raise, or never resume),
  in the descriptor and in every record that the pipeline passes to \<open>job_store.update\<close>,
  the result is set exactly when the status is completed, and the error exactly when the
  status is failed; the progress values never decrease along the sequence, the failed
  record included; and every record but the last is queued or processing.
\<close>

theorem C9_job_record_invariant:
  assumes "submit_analysis request cached u utcnow t_sweep t_add store = Inr (descr, store', Some jid)"
      and "JobStore_get s jid = None \<or> JobStore_get s jid = Some descr"
  shows "list_all (\<lambda>j. (result j \<noteq> None) = (status j = Completed)
                      \<and> (error j \<noteq> None) = (status j = Failed))
           (descr # process_analysis_pipeline w s jid (url request) (deep_scan request)
                      (lite_mode request))
       \<and> sorted (map progress
           (descr # process_analysis_pipeline w s jid (url request) (deep_scan request)
                      (lite_mode request)))
       \<and> list_all (\<lambda>j. status j = Queued \<or> status j = Processing)
           (butlast (descr # process_analysis_pipeline w s jid (url request) (deep_scan request)
                      (lite_mode request)))
       \<and> JobStore_get store' jid = Some descr"
proof -
  note d = submitted_descriptor [OF assms(1)]
  have f: "result descr = None" "error descr = None" "progress descr = 0" "status descr = Queued"
    by (simp_all add: d(1))
  have g: "JobStore_get store' jid = Some descr"
    unfolding d(2) by (rule get_after_add)
  from assms(2) show ?thesis
  proof
    assume "JobStore_get s jid = None"
    then show ?thesis using f g by (simp add: process_analysis_pipeline_def)
  next
    assume h: "JobStore_get s jid = Some descr"
    let ?tr = "extract_stage w (url request) (deep_scan request) (lite_mode request) descr"
    have p: "process_analysis_pipeline w s jid (url request) (deep_scan request)
        (lite_mode request) = ?tr"
      by (simp add: process_analysis_pipeline_def h)
    have le: "progress descr \<le> 10" using f by simp
    note r = pipeline_records [OF f(1) f(2) le, of w "url request" "deep_scan request"
        "lite_mode request"]
    have ne: "?tr \<noteq> []" by (simp add: extract_stage_def Let_def)
    have b: "list_all (\<lambda>j. status j = Queued \<or> status j = Processing) (butlast (descr # ?tr))"
      using ne r(3) f(4) by (simp add: list_all_iff)
    show ?thesis unfolding p using r(1,2) b f g by simp
  qed
qed

theorem C9_job_record_invariant_witness:
  "submit_analysis req0 None 0 5 5 5 (JobStore_init None 3600) = Inr (descr1, store1, Some (uuid_str 0))
   \<and> JobStore_get store1 (uuid_str 0) = Some descr1
   \<and> map (\<lambda>j. (status j, progress j, result j, error j))
        (process_analysis_pipeline pworld0 store1 (uuid_str 0) (url req0) (deep_scan req0)
           (lite_mode req0))
      = [(Processing, 10, None, None), (Processing, 35, None, None), (Processing, 70, None, None),
         (Processing, 85, None, None), (Processing, 95, None, None),
         (Completed, 100, Some cached0, None)]
   \<and> list_all (\<lambda>j. (result j \<noteq> None) = (status j = Completed)
                   \<and> (error j \<noteq> None) = (status j = Failed))
        (descr1 # process_analysis_pipeline pworld0 store1 (uuid_str 0) (url req0) (deep_scan req0)
                    (lite_mode req0))
   \<and> sorted (map progress
        (descr1 # process_analysis_pipeline pworld0 store1 (uuid_str 0) (url req0) (deep_scan req0)
                    (lite_mode req0)))
   \<and> map (\<lambda>j. (status j, progress j, result j, error j))
        (process_analysis_pipeline pworld1 store1 (uuid_str 0) (url req0) (deep_scan req0)
           (lite_mode req0))
      = [(Processing, 10, None, None), (Processing, 35, None, None),
         (Failed, 35, None, Some ''No LLM available (rate limits exceeded or not configured)'')]
   \<and> list_all (\<lambda>j. (result j \<noteq> None) = (status j = Completed)
                   \<and> (error j \<noteq> None) = (status j = Failed))
        (descr1 # process_analysis_pipeline pworld1 store1 (uuid_str 0) (url req0) (deep_scan req0)
                    (lite_mode req0))
   \<and> map (\<lambda>j. (status j, progress j, result j, error j))
        (process_analysis_pipeline pworld2 store1 (uuid_str 0) (url req0) (deep_scan req0)
           (lite_mode req0))
      = [(Processing, 10, None, None), (Processing, 35, None, None), (Processing, 70, None, None),
         (Failed, 70, None,
          Some (''Unexpected error: '' @ [CHR 0x27] @ ''list'' @ [CHR 0x27]
                @ '' object has no attribute '' @ [CHR 0x27] @ ''get'' @ [CHR 0x27]))]"
proof -
  have v: "validate_reddit_url (url req0)"
    by (simp add: req0_def validate_reddit_url_def pattern_thread_def scheme_def
        strip_prefix_def opt_prefix_def sub_path_def class_plus_def is_word_def
        is_alnum_def starts_alnum_def)
  have s: "submit_analysis req0 None 0 5 5 5 (JobStore_init None 3600) =
          Inr (descr1, store1, Some (uuid_str 0))"
    using v by (simp add: submit_analysis_def Let_def descr1_def store1_def)
  have g: "JobStore_get store1 (uuid_str 0) = Some descr1"
    unfolding store1_def by (rule get_after_add)
  have g': "JobStore_get store1 (uuid_str 0) = None \<or> JobStore_get store1 (uuid_str 0) = Some descr1"
    using g by simp
  have t0: "map (\<lambda>j. (status j, progress j, result j, error j))
        (process_analysis_pipeline pworld0 store1 (uuid_str 0) (url req0) (deep_scan req0)
           (lite_mode req0))
      = [(Processing, 10, None, None), (Processing, 35, None, None), (Processing, 70, None, None),
         (Processing, 85, None, None), (Processing, 95, None, None),
         (Completed, 100, Some cached0, None)]"
    by (simp add: process_analysis_pipeline_def g extract_stage_def analyze_stage_def
        enrich_stage_def build_stage_def save_stage_def Let_def pworld0_def dict_get_def
        cached0_def descr1_def)
  have t1: "map (\<lambda>j. (status j, progress j, result j, error j))
        (process_analysis_pipeline pworld1 store1 (uuid_str 0) (url req0) (deep_scan req0)
           (lite_mode req0))
      = [(Processing, 10, None, None), (Processing, 35, None, None),
         (Failed, 35, None, Some ''No LLM available (rate limits exceeded or not configured)'')]"
    by (simp add: process_analysis_pipeline_def g extract_stage_def analyze_stage_def
        fail_job_def Let_def pworld1_def pworld0_def descr1_def)
  have t2: "map (\<lambda>j. (status j, progress j, result j, error j))
        (process_analysis_pipeline pworld2 store1 (uuid_str 0) (url req0) (deep_scan req0)
           (lite_mode req0))
      = [(Processing, 10, None, None), (Processing, 35, None, None), (Processing, 70, None, None),
         (Failed, 70, None,
          Some (''Unexpected error: '' @ [CHR 0x27] @ ''list'' @ [CHR 0x27]
                @ '' object has no attribute '' @ [CHR 0x27] @ ''get'' @ [CHR 0x27]))]"
    by (simp add: process_analysis_pipeline_def g extract_stage_def analyze_stage_def
        enrich_stage_def fail_job_def dict_get_def Let_def pworld2_def pworld0_def descr1_def)
  note a0 = C9_job_record_invariant [OF s g', of pworld0]
  note a1 = C9_job_record_invariant [OF s g', of pworld1]
  from s g t0 t1 t2 a0 a1 show ?thesis by blast
qed

end
